theory Spec2Isabelle
  imports Main "HOL-Library.Word"
begin

unbundle bit_operations_syntax

section \<open>JavaScript values and exceptions\<close>

text \<open>
  A thrown JavaScript value is either an \<open>Error\<close> object, of which the handlers of the
  source read \<open>message\<close>, or some other value, which they render with \<open>String(error)\<close>.
  An \<open>async\<close> function is modelled by its settled promise: \<open>Inl\<close> is a rejection (or a
  synchronous throw), \<open>Inr\<close> the resolved value.
\<close>

datatype thrown = Error string | Thrown string

type_synonym 'a promise = "thrown + 'a"

definition then_do :: "'a promise \<Rightarrow> ('a \<Rightarrow> 'b promise) \<Rightarrow> 'b promise" where
  "then_do m f = (case m of Inl e \<Rightarrow> Inl e | Inr v \<Rightarrow> f v)"

text \<open>\<open>error instanceof Error ? error.message : String(error)\<close>\<close>

definition message_or_String :: "thrown \<Rightarrow> string" where
  "message_or_String e = (case e of Error m \<Rightarrow> m | Thrown s \<Rightarrow> s)"

type_synonym bytes = "8 word list"

subsection \<open>Hexadecimal strings\<close>

definition hex_char :: "nat \<Rightarrow> char" where
  "hex_char d = ''0123456789abcdef'' ! d"

text \<open>\<open>value.toString(16)\<close> of a non-negative \<open>bigint\<close>.\<close>

fun toString16 :: "nat \<Rightarrow> string" where
  "toString16 n = (if n < 16 then [hex_char n] else toString16 (n div 16) @ [hex_char (n mod 16)])"

declare toString16.simps [simp del]

definition padStart :: "nat \<Rightarrow> char \<Rightarrow> string \<Rightarrow> string" where
  "padStart n c s = replicate (n - length s) c @ s"

text \<open>
  viem's \<open>numberToHex(value, { size: 32 })\<close>: it throws \<open>IntegerOutOfRangeError\<close> outside
  \<open>[0, 2^256 - 1]\<close>, and otherwise pads the hexadecimal digits to 64 after \<open>0x\<close>.
\<close>

definition numberToHex32 :: "int \<Rightarrow> string promise" where
  "numberToHex32 v =
     (if v > 2 ^ 256 - 1 \<or> v < 0
      then Inl (Error ''Number is not in safe 256-bit unsigned integer range'')
      else Inr (''0x'' @ padStart 64 CHR ''0'' (toString16 (nat v))))"

text \<open>\<open>bigintToHex\<close>: \<open>numberToHex(value, { size: 32 }).slice(2)\<close>\<close>

definition bigintToHex :: "int \<Rightarrow> string promise" where
  "bigintToHex v = then_do (numberToHex32 v) (\<lambda>h. Inr (drop 2 h))"

text \<open>\<open>toHexString\<close>: \<open>`0x${hex}`\<close>\<close>

definition toHexString :: "string \<Rightarrow> string" where
  "toHexString hex = ''0x'' @ hex"

text \<open>viem's \<open>charCodeToBase16\<close>; \<open>None\<close> is \<open>undefined\<close>.\<close>

definition charCodeToBase16 :: "char \<Rightarrow> nat option" where
  "charCodeToBase16 c =
     (let n = (of_char c :: nat) in
      if 48 \<le> n \<and> n \<le> 57 then Some (n - 48)
      else if 65 \<le> n \<and> n \<le> 70 then Some (n - 55)
      else if 97 \<le> n \<and> n \<le> 102 then Some (n - 87)
      else None)"

text \<open>
  viem's \<open>hexToBytes\<close>: drop the two-character prefix, left-pad an odd number of digits with
  \<open>0\<close>, and convert pairs of digits, throwing at the first pair that is not hexadecimal.
\<close>

fun bytes_of_pairs :: "string \<Rightarrow> bytes promise" where
  "bytes_of_pairs (a # b # r) =
     (case (charCodeToBase16 a, charCodeToBase16 b) of
        (Some x, Some y) \<Rightarrow> then_do (bytes_of_pairs r) (\<lambda>bs. Inr (of_nat (x * 16 + y) # bs))
      | _ \<Rightarrow> Inl (Error ''Invalid byte sequence''))"
| "bytes_of_pairs [a] = Inl (Error ''Invalid byte sequence'')"
| "bytes_of_pairs [] = Inr []"

definition hexToBytes :: "string \<Rightarrow> bytes promise" where
  "hexToBytes hex =
     (let hexString = drop 2 hex;
          hexString = (if odd (length hexString) then CHR ''0'' # hexString else hexString)
      in bytes_of_pairs hexString)"

text \<open>\<open>addressToBytes\<close>: \<open>hexToBytes(address)\<close>\<close>

definition addressToBytes :: "string \<Rightarrow> bytes promise" where
  "addressToBytes address = hexToBytes address"

text \<open>The big-endian number a byte sequence spells (\<open>BigInt('0x' + bytes.toString('hex'))\<close>).\<close>

definition bytes_value :: "bytes \<Rightarrow> nat" where
  "bytes_value bs = foldl (\<lambda>acc b. acc * 256 + unat b) 0 bs"

subsection \<open>\<open>BigInt(string)\<close> and \<open>Number(bigint)\<close>\<close>

text \<open>
  \<open>BigInt(s)\<close> follows ECMAScript's \<open>StringToBigInt\<close>: surrounding white space is
  dropped; the empty string is \<open>0n\<close>; \<open>0x\<close>, \<open>0o\<close> and \<open>0b\<close> introduce unsigned
  hexadecimal, octal and binary digits; otherwise the string is an optionally signed
  run of decimal digits. Anything else throws a \<open>SyntaxError\<close>. Characters are 8-bit
  here, so of the white-space characters only those below 256 occur.
\<close>

definition isStrWhiteSpaceChar :: "char \<Rightarrow> bool" where
  "isStrWhiteSpaceChar c = ((of_char c :: nat) \<in> {9, 10, 11, 12, 13, 32, 160})"

definition trimString :: "string \<Rightarrow> string" where
  "trimString s = rev (dropWhile isStrWhiteSpaceChar (rev (dropWhile isStrWhiteSpaceChar s)))"

fun digits_value :: "nat \<Rightarrow> nat \<Rightarrow> string \<Rightarrow> nat option" where
  "digits_value b acc [] = Some acc"
| "digits_value b acc (c # cs) =
     (case charCodeToBase16 c of
        None \<Rightarrow> None
      | Some d \<Rightarrow> if d < b then digits_value b (acc * b + d) cs else None)"

definition parse_digits :: "nat \<Rightarrow> string \<Rightarrow> nat option" where
  "parse_digits b s = (if s = [] then None else digits_value b 0 s)"

definition BigInt_of_string :: "string \<Rightarrow> int promise" where
  "BigInt_of_string str =
     (let s = trimString str;
          syntaxError = Inl (Error (''Cannot convert '' @ str @ '' to a BigInt''));
          unsigned = (\<lambda>b ds. case parse_digits b ds of None \<Rightarrow> syntaxError
                                | Some n \<Rightarrow> Inr (int n))
      in if s = [] then Inr 0
         else if take 2 s = ''0x'' \<or> take 2 s = ''0X'' then unsigned 16 (drop 2 s)
         else if take 2 s = ''0o'' \<or> take 2 s = ''0O'' then unsigned 8 (drop 2 s)
         else if take 2 s = ''0b'' \<or> take 2 s = ''0B'' then unsigned 2 (drop 2 s)
         else if hd s = CHR ''-''
           then (case parse_digits 10 (tl s) of None \<Rightarrow> syntaxError
                 | Some n \<Rightarrow> Inr (- int n))
         else if hd s = CHR ''+'' then unsigned 10 (tl s)
         else unsigned 10 s)"

text \<open>
  \<open>Number(b)\<close> of a \<open>bigint\<close> is the IEEE 754 double nearest to \<open>b\<close>, ties to the even
  significand. Below \<open>2^1024\<close> that double is an integer: \<open>b\<close> itself when it has at most
  53 significant bits, and otherwise \<open>b\<close> rounded to its 53 leading bits.
\<close>

fun bit_length :: "nat \<Rightarrow> nat" where
  "bit_length n = (if n = 0 then 0 else Suc (bit_length (n div 2)))"

declare bit_length.simps [simp del]

definition Number_of_bigint :: "int \<Rightarrow> int" where
  "Number_of_bigint b =
     (let a = nat \<bar>b\<bar>; w = bit_length a
      in if w \<le> 53 then b
         else let e = w - 53; q = a div 2 ^ e; r = a mod 2 ^ e; half = 2 ^ (e - 1);
                  q' = (if r > half \<or> (r = half \<and> odd q) then q + 1 else q)
              in sgn b * int (q' * 2 ^ e))"

subsection \<open>Addresses\<close>

text \<open>
  viem's \<open>getAddress\<close> throws \<open>InvalidAddressError\<close> unless the string matches
  \<open>/^0x[a-fA-F0-9]{40}$/\<close>, and otherwise returns the EIP-55 checksummed spelling. The
  capitalisation of that spelling is a function of the lower-case digits, so the returned
  string is represented by them: two results are equal strings exactly when their
  lower-case digits agree, and \<open>.toLowerCase().slice(2)\<close> yields the digits.
\<close>

datatype address = Address string

definition toLowerCase :: "string \<Rightarrow> string" where
  "toLowerCase s =
     map (\<lambda>c. let n = (of_char c :: nat)
              in if 65 \<le> n \<and> n \<le> 90 then ''abcdefghijklmnopqrstuvwxyz'' ! (n - 65) else c) s"

definition isAddress :: "string \<Rightarrow> bool" where
  "isAddress s = (length s = 42 \<and> take 2 s = ''0x''
                  \<and> list_all (\<lambda>c. charCodeToBase16 c \<noteq> None) (drop 2 s))"

definition getAddress :: "string \<Rightarrow> address promise" where
  "getAddress s =
     (if isAddress s then Inr (Address (toLowerCase (drop 2 s)))
      else Inl (Error (''Address '' @ s @ '' is invalid.'')))"

text \<open>\<open>a.toLowerCase().slice(2)\<close> of a checksummed address.\<close>

definition lower_digits :: "address \<Rightarrow> string" where
  "lower_digits a = (case a of Address h \<Rightarrow> h)"

section \<open>Compact id bit fields\<close>

text \<open>
  \<open>validateDomainAndId\<close>: \<open>Number((id >> BigInt(252)) & BigInt(0x7))\<close>.
  A JavaScript \<open>bigint\<close> is an unbounded two's-complement integer, as \<open>int\<close> is.
\<close>

definition resetPeriodIndex :: "int \<Rightarrow> nat" where
  "resetPeriodIndex i = nat (drop_bit 252 i AND 7)"

text \<open>
  \<open>validateAllocation\<close>:
  \<open>(compact.id >> BigInt(160)) & ((BigInt(1) << BigInt(92)) - BigInt(1))\<close>.
\<close>

definition allocatorId :: "int \<Rightarrow> int" where
  "allocatorId i = drop_bit 160 i AND (push_bit 92 1 - 1)"

text \<open>The reset-period table of \<open>validateDomainAndId\<close>, in seconds.\<close>

definition resetPeriods :: "int list" where
  "resetPeriods = [1, 15, 60, 600, 3900, 86400, 612000, 2592000]"

text \<open>
  The layout as the specification words it: \<open>resetPeriodIndex\<close> in bits 255..253,
  \<open>allocatorId\<close> in bits 252..160 (93 bits).
\<close>

definition spec_resetPeriodIndex :: "int \<Rightarrow> int" where
  "spec_resetPeriodIndex i = (i div 2 ^ 253) mod 2 ^ 3"

definition spec_allocatorId :: "int \<Rightarrow> int" where
  "spec_allocatorId i = (i div 2 ^ 160) mod 2 ^ 93"

section \<open>Data model\<close>

text \<open>\<open>CompactMessage\<close>; the field \<open>id\<close> is named \<open>compact_id\<close> here.\<close>

record CompactMessage =
  arbiter :: string
  sponsor :: string
  nonce :: "int option"
  expires :: int
  compact_id :: int
  amount :: string
  witnessTypeString :: "string option"
  witnessHash :: "string option"

record ValidationResult =
  isValid :: bool
  error :: "string option"

definition valid :: ValidationResult where
  "valid = \<lparr>isValid = True, error = None\<rparr>"

definition invalid :: "string \<Rightarrow> ValidationResult" where
  "invalid msg = \<lparr>isValid = False, error = Some msg\<rparr>"

subsection \<open>The database\<close>

text \<open>
  The schema is not part of the sources. A row of \<open>nonces\<close> has the columns the
  statements of the nonce functions name (its \<open>id\<close>, a fresh UUID, is left out). A row of
  \<open>compacts\<close> has the columns named by \<open>storeCompact\<close> (\<open>chain_id\<close>, \<open>compact\<close>,
  \<open>hash\<close>, \<open>signature\<close>, \<open>created_at\<close>) and those named by \<open>getAllocatedBalance\<close>
  (\<open>sponsor\<close>, \<open>chain_id\<close>, \<open>compact_id\<close>, \<open>expires\<close>, \<open>amount\<close>, \<open>claim_hash\<close>); a
  column that an \<open>INSERT\<close> does not name is \<open>NULL\<close>, which is \<open>None\<close>. Column
  arithmetic is on unbounded integers.

  Any statement may fail: \<open>fault\<close> gives, for each statement of the source, the value
  \<open>db.query\<close> throws, if it does.

  The types of the columns \<open>nonce_high\<close> and \<open>nonce_low\<close> are not in the sources
  either. \<open>range_fault\<close> gives the error the database raises, if it does, when the two
  numeric parameters of a statement on \<open>nonces\<close> do not fit these columns (with the
  specification's \<open>high INT64\<close> and \<open>low INT32\<close>, PostgreSQL rejects a parameter outside
  the signed 64-bit and 32-bit ranges); a database that takes every integer has none.
\<close>

datatype statement =
  SelectNonceCount | SelectNextNonce | InsertNonce | SelectAllocated | InsertCompact

record nonce_row =
  n_chain_id :: string
  n_sponsor :: bytes
  n_nonce_high :: int
  n_nonce_low :: int

record compact_row =
  c_chain_id :: string
  c_compact :: "CompactMessage option"
  c_hash :: "string option"
  c_signature :: "string option"
  c_created_at :: "int option"
  c_sponsor :: "string option"
  c_compact_id :: "string option"
  c_expires :: "int option"
  c_amount :: "string option"
  c_claim_hash :: "string option"

record database =
  nonces :: "nonce_row list"
  compacts :: "compact_row list"
  fault :: "statement \<Rightarrow> thrown option"
  range_fault :: "int \<Rightarrow> int \<Rightarrow> thrown option"

text \<open>\<open>db.query\<close> of a statement whose result is \<open>r\<close> when it does not fail.\<close>

definition db_query :: "database \<Rightarrow> statement \<Rightarrow> 'a \<Rightarrow> 'a promise" where
  "db_query db st r = (case fault db st of Some e \<Rightarrow> Inl e | None \<Rightarrow> Inr r)"

text \<open>
  \<open>db.query\<close> of a statement on \<open>nonces\<close> with the parameters \<open>nonceHigh\<close> and
  \<open>nonceLow\<close>.
\<close>

definition nonce_query :: "database \<Rightarrow> statement \<Rightarrow> int \<Rightarrow> int \<Rightarrow> 'a \<Rightarrow> 'a promise" where
  "nonce_query db st nonceHigh nonceLow r =
     (case fault db st of
        Some e \<Rightarrow> Inl e
      | None \<Rightarrow> (case range_fault db nonceHigh nonceLow of Some e \<Rightarrow> Inl e | None \<Rightarrow> Inr r))"

section \<open>Nonces\<close>

subsection \<open>\<open>generateNonce\<close>\<close>

text \<open>\<open>(nonce_high::numeric * (2^32)::numeric) + nonce_low::numeric\<close>\<close>

definition frag_key :: "int \<times> int \<Rightarrow> int" where
  "frag_key r = fst r * 2 ^ 32 + snd r"

text \<open>\<open>LEAD(...) OVER w\<close>: each row with the row after it in the window's order.\<close>

definition lead :: "'a list \<Rightarrow> ('a \<times> 'a option) list" where
  "lead xs = zip xs (map Some (tl xs) @ [None])"

definition numbered_gaps :: "(int \<times> int) list \<Rightarrow> ((int \<times> int) \<times> (int \<times> int) option) list" where
  "numbered_gaps rows = lead (sort_key frag_key rows)"

text \<open>The two \<open>CASE\<close> expressions of \<open>gaps\<close>.\<close>

definition gap_after :: "int \<times> int \<Rightarrow> int \<times> int" where
  "gap_after r =
     (if snd r = 2147483647 then fst r + 1 else fst r,
      if snd r = 2147483647 then 0 else snd r + 1)"

text \<open>The \<open>WHERE\<close> clause of \<open>gaps\<close>.\<close>

definition gap_follows :: "(int \<times> int) \<times> (int \<times> int) option \<Rightarrow> bool" where
  "gap_follows p =
     (case snd p of None \<Rightarrow> True
      | Some nx \<Rightarrow> frag_key nx > frag_key (fst p) + 1)"

definition gaps :: "(int \<times> int) list \<Rightarrow> (int \<times> int) list" where
  "gaps rows =
     map (\<lambda>p. gap_after (fst p)) (filter gap_follows (numbered_gaps rows))
     @ (if (0, 0) \<in> set rows then [] else [(0, 0)])"

text \<open>
  The outer \<open>SELECT COALESCE(...)\<close>. Its second argument is a row value rendered as text,
  which is never \<open>NULL\<close>: without rows it is \<open>(,0)\<close>, here \<open>None\<close>.
\<close>

definition next_nonce :: "(int \<times> int) list \<Rightarrow> (int \<times> int) option" where
  "next_nonce rows =
     (case sort_key frag_key (gaps rows) of
        g # _ \<Rightarrow> Some g
      | [] \<Rightarrow>
          (if rows = [] then None
           else if Max (set (map snd rows)) < 2147483647
             then Some (Max (set (map fst rows)), Max (set (map snd rows)) + 1)
           else Some (Max (set (map fst rows)) + 1, 0)))"

text \<open>The rows \<open>WHERE chain_id = $1 AND sponsor = $2\<close>, as \<open>(nonce_high, nonce_low)\<close>.\<close>

definition sponsor_rows :: "database \<Rightarrow> string \<Rightarrow> bytes \<Rightarrow> (int \<times> int) list" where
  "sponsor_rows db chainId sponsorBytes =
     map (\<lambda>r. (n_nonce_high r, n_nonce_low r))
       (filter (\<lambda>r. n_chain_id r = chainId \<and> n_sponsor r = sponsorBytes) (nonces db))"

text \<open>
  \<open>Buffer.from(digits, 'hex')\<close> decodes pairs of hexadecimal digits and stops at the first
  pair that is not one.
\<close>

fun Buffer_from_hex :: "string \<Rightarrow> bytes" where
  "Buffer_from_hex (a # b # r) =
     (case (charCodeToBase16 a, charCodeToBase16 b) of
        (Some x, Some y) \<Rightarrow> of_nat (x * 16 + y) # Buffer_from_hex r
      | _ \<Rightarrow> [])"
| "Buffer_from_hex _ = []"

text \<open>
  \<open>generateNonce\<close>. The regular expression \<open>/\((\d+),(\d+)\)/\<close> matches the returned text
  when both components are present and not negative.
\<close>

definition generateNonce :: "string \<Rightarrow> string \<Rightarrow> database \<Rightarrow> int promise" where
  "generateNonce sponsor' chainId db =
     then_do (getAddress sponsor') (\<lambda>a.
     let sponsorBytes = Buffer_from_hex (lower_digits a) in
     then_do (db_query db SelectNextNonce (next_nonce (sponsor_rows db chainId sponsorBytes)))
       (\<lambda>next.
     case next of
       None \<Rightarrow> Inl (Error ''Invalid nonce format returned'')
     | Some (high, low) \<Rightarrow>
         if high < 0 \<or> low < 0 then Inl (Error ''Invalid nonce format returned'')
         else
           let sponsorPart = push_bit 96 (int (bytes_value sponsorBytes));
               noncePart = push_bit 32 high OR low
           in Inr (sponsorPart OR noncePart)))"

subsection \<open>\<open>validateNonce\<close> and \<open>storeNonce\<close>\<close>

text \<open>
  Both functions extract the fragment with the same three statements:
  \<open>BigInt('0x' + fragmentPart)\<close>, \<open>Number(fragmentBigInt & BigInt(0xffffffff))\<close> and
  \<open>Number(fragmentBigInt >> BigInt(32))\<close>. The result is \<open>(nonceHigh, nonceLow)\<close>.
\<close>

definition fragment_high_low :: "string \<Rightarrow> (int \<times> int) promise" where
  "fragment_high_low fragmentPart =
     then_do (BigInt_of_string (''0x'' @ fragmentPart)) (\<lambda>fragmentBigInt.
     let nonceLow = Number_of_bigint (fragmentBigInt AND 4294967295);
         nonceHigh = Number_of_bigint (drop_bit 32 fragmentBigInt)
     in Inr (nonceHigh, nonceLow))"

text \<open>The \<open>SELECT COUNT(*)\<close> of \<open>validateNonce\<close>.\<close>

definition nonce_count :: "database \<Rightarrow> string \<Rightarrow> bytes \<Rightarrow> int \<Rightarrow> int \<Rightarrow> nat" where
  "nonce_count db chainId sponsorBytes nonceHigh nonceLow =
     length (filter (\<lambda>r. n_chain_id r = chainId \<and> n_sponsor r = sponsorBytes
                          \<and> n_nonce_high r = nonceHigh \<and> n_nonce_low r = nonceLow) (nonces db))"

definition validateNonce_body :: "int \<Rightarrow> string \<Rightarrow> string \<Rightarrow> database \<Rightarrow> ValidationResult promise" where
  "validateNonce_body nonce' sponsor' chainId db =
     then_do (bigintToHex nonce') (\<lambda>nonceHex.
     let sponsorPart = take 40 nonceHex;
         fragmentPart = drop 40 nonceHex
     in
     then_do (getAddress sponsor') (\<lambda>a.
     let sponsorAddress = lower_digits a in
     if sponsorPart \<noteq> sponsorAddress
     then Inr (invalid ''Nonce does not match sponsor address'')
     else
       then_do (fragment_high_low fragmentPart) (\<lambda>(nonceHigh, nonceLow).
       then_do (addressToBytes sponsor') (\<lambda>sponsorBytes.
       then_do (nonce_query db SelectNonceCount nonceHigh nonceLow
                  (nonce_count db chainId sponsorBytes nonceHigh nonceLow)) (\<lambda>count.
       if count > 0 then Inr (invalid ''Nonce has already been used'')
       else Inr valid)))))"

definition validateNonce :: "int \<Rightarrow> string \<Rightarrow> string \<Rightarrow> database \<Rightarrow> ValidationResult promise" where
  "validateNonce nonce' sponsor' chainId db =
     (case validateNonce_body nonce' sponsor' chainId db of
        Inl e \<Rightarrow> Inr (invalid (''Nonce validation error: '' @ message_or_String e))
      | Inr r \<Rightarrow> Inr r)"

text \<open>
  \<open>storeNonce\<close> returns the database after the \<open>INSERT\<close>.

  Modelled from the spec: the key of \<open>nonces\<close> is missing from the sources; the
  specification gives \<open>PRIMARY KEY(chainId, sponsor, high, low)\<close>, so the \<open>INSERT\<close> of a
  row that is already there fails.
\<close>

definition storeNonce :: "int \<Rightarrow> string \<Rightarrow> database \<Rightarrow> database promise" where
  "storeNonce nonce' chainId db =
     then_do (bigintToHex nonce') (\<lambda>nonceHex.
     let sponsorPart = take 40 nonceHex;
         fragmentPart = drop 40 nonceHex
     in
     then_do (fragment_high_low fragmentPart) (\<lambda>(nonceHigh, nonceLow).
     then_do (hexToBytes (toHexString sponsorPart)) (\<lambda>sponsorBytes.
     then_do (nonce_query db InsertNonce nonceHigh nonceLow ()) (\<lambda>_.
     if nonce_count db chainId sponsorBytes nonceHigh nonceLow > 0
     then Inl (Error ''duplicate key value violates unique constraint'')
     else Inr (db\<lparr>nonces := nonces db @
                 [\<lparr>n_chain_id = chainId, n_sponsor = sponsorBytes,
                   n_nonce_high = nonceHigh, n_nonce_low = nonceLow\<rparr>]\<rparr>)))))"

text \<open>
  The split that \<open>validateNonce\<close> and \<open>storeNonce\<close> both perform on a nonce: the sponsor
  digits, \<open>nonceHigh\<close> and \<open>nonceLow\<close>.
\<close>

definition splitNonce :: "int \<Rightarrow> (string \<times> int \<times> int) promise" where
  "splitNonce nonce' =
     then_do (bigintToHex nonce') (\<lambda>nonceHex.
     then_do (fragment_high_low (drop 40 nonceHex)) (\<lambda>(nonceHigh, nonceLow).
     Inr (take 40 nonceHex, nonceHigh, nonceLow)))"

text \<open>
  The packed nonce as the specification words it: the sponsor address \<open>a\<close> in bits
  255..96, \<open>high\<close> in bits 95..32, \<open>low\<close> in bits 31..0.
\<close>

definition packNonce :: "nat \<Rightarrow> int \<Rightarrow> int \<Rightarrow> int" where
  "packNonce a h l = int a * 2 ^ 96 + h * 2 ^ 32 + l"

text \<open>The \<open>w\<close> lower-case hexadecimal digits of a number below \<open>16^w\<close>.\<close>

fun hex_fixed :: "nat \<Rightarrow> nat \<Rightarrow> string" where
  "hex_fixed 0 n = []"
| "hex_fixed (Suc w) n = hex_fixed w (n div 16) @ [hex_char (n mod 16)]"

section \<open>Validation\<close>

subsection \<open>Numbers and their renderings\<close>

text \<open>\<open>n.toString()\<close> of a non-negative integer, and \<open>`${b}`\<close> of a \<open>bigint\<close>.\<close>

fun decimal :: "nat \<Rightarrow> string" where
  "decimal n = (if n < 10 then [hex_char n] else decimal (n div 10) @ [hex_char (n mod 10)])"

declare decimal.simps [simp del]

definition bigint_toString :: "int \<Rightarrow> string" where
  "bigint_toString b = (if b < 0 then CHR ''-'' # decimal (nat (- b)) else decimal (nat b))"

text \<open>
  A JavaScript number that \<open>parseInt\<close> can return: \<open>NaN\<close>, an infinity, or an
  integer-valued double.
\<close>

datatype number = NaN | PosInfinity | NegInfinity | Num int

text \<open>
  \<open>parseInt(s)\<close>: after leading white space and an optional sign, the longest run of
  digits (hexadecimal ones after \<open>0x\<close>) is read, and \<open>NaN\<close> results when there is none.
  The integer read is rounded to a double; from \<open>2^1024\<close> on that is an infinity.
\<close>

fun digits_prefix :: "nat \<Rightarrow> string \<Rightarrow> string" where
  "digits_prefix b [] = []"
| "digits_prefix b (c # cs) =
     (case charCodeToBase16 c of
        None \<Rightarrow> []
      | Some d \<Rightarrow> if d < b then c # digits_prefix b cs else [])"

definition parseInt :: "string \<Rightarrow> number" where
  "parseInt str =
     (let s = dropWhile isStrWhiteSpaceChar str;
          negative = (s \<noteq> [] \<and> hd s = CHR ''-'');
          s = (if s \<noteq> [] \<and> (hd s = CHR ''-'' \<or> hd s = CHR ''+'') then tl s else s);
          hex = (take 2 s = ''0x'' \<or> take 2 s = ''0X'');
          radix = (if hex then 16 else 10);
          s = (if hex then drop 2 s else s);
          ds = digits_prefix radix s
      in case parse_digits radix ds of
           None \<Rightarrow> NaN
         | Some n \<Rightarrow>
             let d = Number_of_bigint (if negative then - int n else int n)
             in if d \<ge> 2 ^ 1024 then PosInfinity
                else if d \<le> - (2 ^ 1024) then NegInfinity
                else Num d)"

subsection \<open>The collaborators\<close>

text \<open>The indexer's answer to \<open>getCompactDetails\<close>, with its nesting flattened.\<close>

record ResourceLock =
  balance :: string
  withdrawalStatus :: int

record CompactDetails =
  resourceLocks :: "ResourceLock list"
  claims :: "string list"
  supportedChains :: "string list"
  accountDeltas :: "string list"

record DetailsQuery =
  q_allocator :: string
  q_sponsor :: string
  q_lockId :: string
  q_chainId :: string

text \<open>The request \<open>hashTypedData\<close> receives.\<close>

datatype eip712_type = T_address | T_uint256 | T_string | T_bytes32

datatype eip712_value =
  V_address address | V_uint256 "int option" | V_string string | V_bytes32 string

record eip712_domain =
  d_name :: string
  d_version :: string
  d_verifyingContract :: string
  d_chainId :: int

record typed_data =
  td_domain :: eip712_domain
  td_types :: "(string \<times> eip712_type) list"
  td_primaryType :: string
  td_message :: "(string \<times> eip712_value) list"

text \<open>
  Everything outside the sources: the clock as each of its three readers sees it
  (\<open>Math.floor(Date.now() / 1000)\<close>), the process environment, the indexer, the chain
  configuration, viem's typed-data hash, the Keccak-256 function, the signing primitive of
  the account (a recoverable ECDSA signature over a 32-byte hash with the configured
  private key, serialised as hexadecimal), the database's \<open>NOW()\<close>, and the rendering
  \<open>Number.prototype.toString\<close> gives an integer-valued double of \<open>2^53\<close> or more.
\<close>

record env =
  now_expiration :: int
  now_domain :: int
  now_balance :: int
  NODE_ENV :: string
  ALLOCATOR_ADDRESS :: string
  getCompactDetails :: "DetailsQuery \<Rightarrow> CompactDetails promise"
  getFinalizationThreshold :: "string \<Rightarrow> int promise"
  hashTypedData :: "typed_data \<Rightarrow> string promise"
  keccak256 :: "bytes \<Rightarrow> bytes"
  sign :: "bytes \<Rightarrow> string promise"
  sql_NOW :: int
  large_toString :: "int \<Rightarrow> string"

definition Number_toString :: "env \<Rightarrow> number \<Rightarrow> string" where
  "Number_toString E x =
     (case x of NaN \<Rightarrow> ''NaN'' | PosInfinity \<Rightarrow> ''Infinity''
      | NegInfinity \<Rightarrow> ''-Infinity''
      | Num d \<Rightarrow> if \<bar>d\<bar> < 2 ^ 53 then bigint_toString d else large_toString E d)"

text \<open>
  \<open>isNaN(chainIdNum) || chainIdNum <= 0 || chainIdNum.toString() !== chainId\<close>, with
  \<open>chainIdNum = parseInt(chainId)\<close>.
\<close>

definition chainId_malformed :: "env \<Rightarrow> string \<Rightarrow> bool" where
  "chainId_malformed E chainId =
     (let chainIdNum = parseInt chainId
      in chainIdNum = NaN
         \<or> (case chainIdNum of Num d \<Rightarrow> d \<le> 0 | NegInfinity \<Rightarrow> True | _ \<Rightarrow> False)
         \<or> Number_toString E chainIdNum \<noteq> chainId)"

subsection \<open>\<open>validateStructure\<close>\<close>

text \<open>\<open>/^\d+$/.test(s)\<close>\<close>

definition all_digits :: "string \<Rightarrow> bool" where
  "all_digits s = (s \<noteq> [] \<and> list_all (\<lambda>c. 48 \<le> (of_char c :: nat) \<and> (of_char c :: nat) \<le> 57) s)"

definition validateStructure :: "CompactMessage \<Rightarrow> ValidationResult promise" where
  "validateStructure compact =
     (case then_do (getAddress (arbiter compact)) (\<lambda>_. getAddress (sponsor compact)) of
        Inl err \<Rightarrow>
          Inr (invalid (''Invalid arbiter address: '' @
                 (case err of Error m \<Rightarrow> m | Thrown _ \<Rightarrow> ''Unknown error'')))
      | Inr _ \<Rightarrow>
          if expires compact \<le> 0 then Inr (invalid ''Invalid expires timestamp'')
          else if compact_id compact \<le> 0 then Inr (invalid ''Invalid id'')
          else if \<not> all_digits (amount compact) then Inr (invalid ''Invalid amount format'')
          else if (witnessTypeString compact = None \<and> witnessHash compact \<noteq> None)
                \<or> (witnessTypeString compact \<noteq> None \<and> witnessHash compact = None)
            then Inr (invalid ''Witness type and hash must both be present or both be null'')
          else Inr valid)"

subsection \<open>\<open>validateExpiration\<close>\<close>

definition validateExpiration :: "env \<Rightarrow> int \<Rightarrow> ValidationResult" where
  "validateExpiration E expires' =
     (let now = now_expiration E; twoHours = 7200
      in if expires' \<le> now then invalid ''Compact has expired''
         else if expires' > now + twoHours then invalid ''Expiration must be within 2 hours''
         else valid)"

subsection \<open>\<open>validateDomainAndId\<close>\<close>

definition validateDomainAndId :: "env \<Rightarrow> int \<Rightarrow> int \<Rightarrow> string \<Rightarrow> string \<Rightarrow> ValidationResult promise" where
  "validateDomainAndId E id' expires' chainId allocatorAddress =
     (if id' \<le> 0 then Inr (invalid ''Invalid ID: must be positive'')
      else if chainId_malformed E chainId then Inr (invalid ''Invalid chain ID format'')
      else if NODE_ENV E = ''test'' \<and> id' = 1 then Inr valid
      else
        let resetPeriod = resetPeriods ! resetPeriodIndex id';
            now = now_domain E
        in if now + resetPeriod < expires'
           then Inr (invalid ''Reset period would allow forced withdrawal before expiration'')
           else Inr valid)"

subsection \<open>\<open>getAllocatedBalance\<close>\<close>

text \<open>
  \<open>rows.reduce((sum, row) => sum + BigInt(row.amount), BigInt(0))\<close>; \<open>BigInt(null)\<close>
  throws a \<open>TypeError\<close>.
\<close>

fun sum_amounts :: "int \<Rightarrow> string option list \<Rightarrow> int promise" where
  "sum_amounts acc [] = Inr acc"
| "sum_amounts acc (a # as) =
     (case a of
        None \<Rightarrow> Inl (Error ''Cannot convert null to a BigInt'')
      | Some s \<Rightarrow> then_do (BigInt_of_string s) (\<lambda>v. sum_amounts (acc + v) as))"

text \<open>
  The \<open>WHERE\<close> clause both queries share; a comparison with \<open>NULL\<close> is not true.
\<close>

definition allocated_where :: "string \<Rightarrow> string \<Rightarrow> string \<Rightarrow> int \<Rightarrow> int \<Rightarrow> compact_row \<Rightarrow> bool" where
  "allocated_where sponsor' chainId lockId currentTimeSeconds finalizationThreshold r =
     (c_sponsor r = Some sponsor' \<and> c_chain_id r = chainId \<and> c_compact_id r = Some lockId
      \<and> (case c_expires r of None \<Rightarrow> False
          | Some e \<Rightarrow> currentTimeSeconds < e + finalizationThreshold))"

text \<open>\<open>claim_hash NOT IN (...)\<close>\<close>

definition claim_hash_not_in :: "string list \<Rightarrow> compact_row \<Rightarrow> bool" where
  "claim_hash_not_in processedClaimHashes r =
     (case c_claim_hash r of None \<Rightarrow> False | Some h \<Rightarrow> h \<notin> set processedClaimHashes)"

definition getAllocatedBalance ::
  "env \<Rightarrow> database \<Rightarrow> string \<Rightarrow> string \<Rightarrow> string \<Rightarrow> string list \<Rightarrow> int promise" where
  "getAllocatedBalance E db sponsor' chainId lockId processedClaimHashes =
     (let currentTimeSeconds = now_balance E in
      then_do (getFinalizationThreshold E chainId) (\<lambda>finalizationThreshold.
      if length processedClaimHashes = 0
      then
        then_do (db_query db SelectAllocated
                   (filter (allocated_where sponsor' chainId lockId currentTimeSeconds
                              finalizationThreshold) (compacts db))) (\<lambda>rows.
        sum_amounts 0 (map c_amount rows))
      else
        then_do (db_query db SelectAllocated
                   (filter (\<lambda>r. allocated_where sponsor' chainId lockId currentTimeSeconds
                                   finalizationThreshold r
                                 \<and> claim_hash_not_in processedClaimHashes r) (compacts db)))
          (\<lambda>rows.
        sum_amounts 0 (map c_amount rows))))"

subsection \<open>\<open>validateAllocation\<close>\<close>

text \<open>\<open>items.reduce((sum, delta) => sum + BigInt(delta.delta), BigInt(0))\<close>\<close>

fun sum_deltas :: "int \<Rightarrow> string list \<Rightarrow> int promise" where
  "sum_deltas acc [] = Inr acc"
| "sum_deltas acc (d # ds) = then_do (BigInt_of_string d) (\<lambda>v. sum_deltas (acc + v) ds)"

definition validateAllocation_body ::
  "env \<Rightarrow> CompactMessage \<Rightarrow> string \<Rightarrow> database \<Rightarrow> ValidationResult promise" where
  "validateAllocation_body E compact chainId db =
     (let allocatorId' = allocatorId (compact_id compact) in
      then_do (getCompactDetails E
                 \<lparr>q_allocator = ALLOCATOR_ADDRESS E, q_sponsor = sponsor compact,
                  q_lockId = bigint_toString (compact_id compact), q_chainId = chainId\<rparr>)
        (\<lambda>response.
      case resourceLocks response of
        [] \<Rightarrow> Inr (invalid ''Resource lock not found'')
      | resourceLock # _ \<Rightarrow>
          if withdrawalStatus resourceLock \<noteq> 0
          then Inr (invalid ''Resource lock has forced withdrawals enabled'')
          else
            then_do
              (case supportedChains response of
                 [] \<Rightarrow> Inr False
               | graphqlAllocatorId # _ \<Rightarrow>
                   if graphqlAllocatorId = [] then Inr False
                   else then_do (BigInt_of_string graphqlAllocatorId)
                          (\<lambda>g. Inr (g = allocatorId')))
              (\<lambda>allocatorMatches.
            if \<not> allocatorMatches then Inr (invalid ''Invalid allocator ID'')
            else
              then_do (sum_deltas 0 (accountDeltas response)) (\<lambda>pendingBalance.
              then_do (BigInt_of_string (balance resourceLock)) (\<lambda>resourceLockBalance.
              let allocatableBalance =
                    (if resourceLockBalance > pendingBalance
                     then resourceLockBalance - pendingBalance else 0)
              in
              then_do (getAddress (sponsor compact)) (\<lambda>a.
              then_do (bigintToHex (compact_id compact)) (\<lambda>lockId.
              then_do (getAllocatedBalance E db (''0x'' @ lower_digits a) chainId lockId
                         (claims response)) (\<lambda>allocatedBalance.
              then_do (BigInt_of_string (amount compact)) (\<lambda>amount'.
              let totalNeededBalance = allocatedBalance + amount' in
              if allocatableBalance < totalNeededBalance
              then Inr (invalid (''Insufficient allocatable balance (have ''
                         @ bigint_toString allocatableBalance @ '', need ''
                         @ bigint_toString totalNeededBalance @ '')''))
              else Inr valid)))))))))"

definition validateAllocation ::
  "env \<Rightarrow> CompactMessage \<Rightarrow> string \<Rightarrow> database \<Rightarrow> ValidationResult promise" where
  "validateAllocation E compact chainId db =
     (case validateAllocation_body E compact chainId db of
        Inl e \<Rightarrow> Inr (invalid (''Allocation validation error: '' @ message_or_String e))
      | Inr r \<Rightarrow> Inr r)"

subsection \<open>\<open>validateCompact\<close>\<close>

definition validateCompact_body ::
  "env \<Rightarrow> CompactMessage \<Rightarrow> string \<Rightarrow> database \<Rightarrow> ValidationResult promise" where
  "validateCompact_body E compact chainId db =
     (if chainId_malformed E chainId then Inr (invalid ''Invalid chain ID format'')
      else
        then_do (validateStructure compact) (\<lambda>result.
        if \<not> isValid result then Inr result
        else
          then_do (case nonce compact of
                     None \<Rightarrow> Inr valid
                   | Some n \<Rightarrow> validateNonce n (sponsor compact) chainId db) (\<lambda>nonceResult.
          if \<not> isValid nonceResult then Inr nonceResult
          else
            let expirationResult = validateExpiration E (expires compact) in
            if \<not> isValid expirationResult then Inr expirationResult
            else
              then_do (validateDomainAndId E (compact_id compact) (expires compact) chainId
                         (ALLOCATOR_ADDRESS E)) (\<lambda>domainResult.
              if \<not> isValid domainResult then Inr domainResult
              else
                then_do (validateAllocation E compact chainId db) (\<lambda>allocationResult.
                if \<not> isValid allocationResult then Inr allocationResult
                else Inr valid)))))"

text \<open>\<open>error instanceof Error ? error.message : 'Validation failed'\<close>\<close>

definition validateCompact ::
  "env \<Rightarrow> CompactMessage \<Rightarrow> string \<Rightarrow> database \<Rightarrow> ValidationResult promise" where
  "validateCompact E compact chainId db =
     (case validateCompact_body E compact chainId db of
        Inl e \<Rightarrow> Inr (invalid (case e of Error m \<Rightarrow> m | Thrown _ \<Rightarrow> ''Validation failed''))
      | Inr r \<Rightarrow> Inr r)"

section \<open>Hashing and signing\<close>

definition DOMAIN_name :: string where "DOMAIN_name = ''The Compact''"
definition DOMAIN_version :: string where "DOMAIN_version = ''0''"
definition DOMAIN_verifyingContract :: string where
  "DOMAIN_verifyingContract = ''0x00000000000018DF021Ff2467dF97ff846E09f48''"

definition COMPACT_TYPES :: "(string \<times> eip712_type) list" where
  "COMPACT_TYPES =
     [(''arbiter'', T_address), (''sponsor'', T_address), (''nonce'', T_uint256),
      (''expires'', T_uint256), (''id'', T_uint256), (''amount'', T_uint256)]"

definition COMPACT_WITH_WITNESS_TYPES :: "(string \<times> eip712_type) list" where
  "COMPACT_WITH_WITNESS_TYPES =
     [(''arbiter'', T_address), (''sponsor'', T_address), (''nonce'', T_uint256),
      (''expires'', T_uint256), (''id'', T_uint256), (''amount'', T_uint256),
      (''witnessTypeString'', T_string), (''witnessHash'', T_bytes32)]"

text \<open>\<open>!s\<close> of a value of type \<open>string | null\<close>: true of \<open>null\<close> and of the empty string.\<close>

definition falsy :: "string option \<Rightarrow> bool" where
  "falsy s = (case s of None \<Rightarrow> True | Some t \<Rightarrow> t = [])"

text \<open>
  The request \<open>generateClaimHash\<close> builds for \<open>hashTypedData\<close>. In the second branch both
  witness fields are strings.
\<close>

definition claim_typed_data :: "CompactMessage \<Rightarrow> int \<Rightarrow> typed_data promise" where
  "claim_typed_data compact chainId =
     then_do (getAddress (arbiter compact)) (\<lambda>normalizedArbiter.
     then_do (getAddress (sponsor compact)) (\<lambda>normalizedSponsor.
     let domain = \<lparr>d_name = DOMAIN_name, d_version = DOMAIN_version,
                    d_verifyingContract = DOMAIN_verifyingContract, d_chainId = chainId\<rparr>
     in
     if falsy (witnessTypeString compact) \<or> falsy (witnessHash compact)
     then
       then_do (BigInt_of_string (amount compact)) (\<lambda>amount'.
       Inr \<lparr>td_domain = domain, td_types = COMPACT_TYPES, td_primaryType = ''Compact'',
            td_message =
              [(''arbiter'', V_address normalizedArbiter),
               (''sponsor'', V_address normalizedSponsor),
               (''nonce'', V_uint256 (nonce compact)),
               (''expires'', V_uint256 (Some (expires compact))),
               (''id'', V_uint256 (Some (compact_id compact))),
               (''amount'', V_uint256 (Some amount'))]\<rparr>)
     else
       then_do (BigInt_of_string (amount compact)) (\<lambda>amount'.
       Inr \<lparr>td_domain = domain, td_types = COMPACT_WITH_WITNESS_TYPES,
            td_primaryType = ''Compact'',
            td_message =
              [(''arbiter'', V_address normalizedArbiter),
               (''sponsor'', V_address normalizedSponsor),
               (''nonce'', V_uint256 (nonce compact)),
               (''expires'', V_uint256 (Some (expires compact))),
               (''id'', V_uint256 (Some (compact_id compact))),
               (''amount'', V_uint256 (Some amount')),
               (''witnessTypeString'', V_string (the (witnessTypeString compact))),
               (''witnessHash'', V_bytes32 (the (witnessHash compact)))]\<rparr>)))"

definition generateClaimHash :: "env \<Rightarrow> CompactMessage \<Rightarrow> int \<Rightarrow> string promise" where
  "generateClaimHash E compact chainId =
     then_do (claim_typed_data compact chainId) (hashTypedData E)"

text \<open>
  viem's \<open>signMessage\<close> with \<open>message: { raw }\<close> signs \<open>hashMessage(message)\<close>, the
  Keccak-256 hash of \<open>toPrefixedMessage(message)\<close>: the bytes of
  \<open>"\x19Ethereum Signed Message:\n"\<close>, the decimal length of the raw bytes, and the raw
  bytes.
\<close>

definition string_bytes :: "string \<Rightarrow> bytes" where
  "string_bytes s = map (\<lambda>c. of_nat (of_char c)) s"

definition presignMessagePrefix :: bytes where
  "presignMessagePrefix = 25 # string_bytes ''Ethereum Signed Message:'' @ [10]"

definition toPrefixedMessage :: "string \<Rightarrow> bytes promise" where
  "toPrefixedMessage raw =
     then_do (hexToBytes raw) (\<lambda>message.
     Inr (presignMessagePrefix @ string_bytes (decimal (length message)) @ message))"

definition hashMessage :: "env \<Rightarrow> string \<Rightarrow> bytes promise" where
  "hashMessage E raw = then_do (toPrefixedMessage raw) (\<lambda>m. Inr (keccak256 E m))"

definition signMessage :: "env \<Rightarrow> string \<Rightarrow> string promise" where
  "signMessage E raw = then_do (hashMessage E raw) (sign E)"

definition signCompact :: "env \<Rightarrow> string \<Rightarrow> int \<Rightarrow> string promise" where
  "signCompact E hash chainId = signMessage E hash"

section \<open>Submission\<close>

record CompactSubmission =
  s_chainId :: string
  s_compact :: CompactMessage

text \<open>
  \<open>storeCompact\<close> returns the database after the \<open>INSERT\<close>.

  Modelled from the spec: the key of \<open>compacts\<close> is missing from the sources; the
  specification gives \<open>UNIQUE(chainId, claimHash)\<close>, so the \<open>INSERT\<close> of a row whose chain
  id and hash are already there fails.
\<close>

definition storeCompact ::
  "env \<Rightarrow> database \<Rightarrow> CompactSubmission \<Rightarrow> string \<Rightarrow> string \<Rightarrow> database promise" where
  "storeCompact E db submission hash signature =
     then_do (db_query db InsertCompact ()) (\<lambda>_.
     if \<exists>r \<in> set (compacts db). c_chain_id r = s_chainId submission \<and> c_hash r = Some hash
     then Inl (Error ''duplicate key value violates unique constraint'')
     else Inr (db\<lparr>compacts := compacts db @
                 [\<lparr>c_chain_id = s_chainId submission,
                   c_compact = Some (s_compact submission),
                   c_hash = Some hash,
                   c_signature = Some signature,
                   c_created_at = Some (sql_NOW E),
                   c_sponsor = None, c_compact_id = None, c_expires = None,
                   c_amount = None, c_claim_hash = None\<rparr>]\<rparr>))"

text \<open>
  \<open>submitCompact\<close> returns \<open>{ hash, signature }\<close> and the database it leaves behind. The call
  of \<open>validateCompact\<close> in the source omits the database argument the function declares;
  it is given the server's database here, the one database there is.
\<close>

definition submitCompact ::
  "env \<Rightarrow> database \<Rightarrow> CompactSubmission \<Rightarrow> string \<Rightarrow> ((string \<times> string) \<times> database) promise" where
  "submitCompact E db submission sponsorAddress =
     then_do (getAddress (sponsor (s_compact submission))) (\<lambda>a.
     then_do (getAddress sponsorAddress) (\<lambda>b.
     if a \<noteq> b then Inl (Error ''Sponsor address does not match session'')
     else
       then_do (validateCompact E (s_compact submission) (s_chainId submission) db)
         (\<lambda>validationResult.
       if \<not> isValid validationResult
       then Inl (Error (case error validationResult of
                          None \<Rightarrow> ''Invalid compact''
                        | Some m \<Rightarrow> if m = [] then ''Invalid compact'' else m))
       else
         then_do (BigInt_of_string (s_chainId submission)) (\<lambda>chainId.
         then_do (generateClaimHash E (s_compact submission) chainId) (\<lambda>hash.
         then_do (BigInt_of_string (s_chainId submission)) (\<lambda>chainId'.
         then_do (signCompact E hash chainId') (\<lambda>signature.
         then_do (storeCompact E db submission hash signature) (\<lambda>db'.
         Inr ((hash, signature), db')))))))))"

section \<open>Notions of the specification\<close>

text \<open>
  A fragment \<open>(high, low)\<close> the allocator may issue: \<open>low\<close> in \<open>[0, 2^31 - 1]\<close>, and \<open>high\<close>
  a non-negative value of the signed 64-bit column.
\<close>

definition valid_fragment :: "int \<times> int \<Rightarrow> bool" where
  "valid_fragment f = (0 \<le> fst f \<and> fst f < 2 ^ 63 \<and> 0 \<le> snd f \<and> snd f \<le> 2147483647)"

text \<open>
  The stored compacts \<open>getAllocatedBalance\<close> counts for a sponsor, chain and lock: those
  of that sponsor, chain and lock that are outstanding. A compact is outstanding when
  \<open>now < expires + finalizationThreshold\<close> and its claim hash is not among the claims the
  indexer reports. (A row without a claim hash is counted only when the indexer reports
  no claim at all: with claims, \<open>NULL NOT IN (...)\<close> is not true.)
\<close>

definition outstanding :: "int \<Rightarrow> int \<Rightarrow> string list \<Rightarrow> compact_row \<Rightarrow> bool" where
  "outstanding now threshold reported r =
     ((case c_expires r of None \<Rightarrow> False | Some e \<Rightarrow> now < e + threshold)
      \<and> (reported = [] \<or> (case c_claim_hash r of None \<Rightarrow> False | Some h \<Rightarrow> h \<notin> set reported)))"

definition same_lock :: "string \<Rightarrow> string \<Rightarrow> string \<Rightarrow> compact_row \<Rightarrow> bool" where
  "same_lock sponsor' chainId lockId r =
     (c_sponsor r = Some sponsor' \<and> c_chain_id r = chainId \<and> c_compact_id r = Some lockId)"

definition row_amount :: "compact_row \<Rightarrow> int" where
  "row_amount r =
     (case c_amount r of None \<Rightarrow> 0
      | Some s \<Rightarrow> (case BigInt_of_string s of Inl _ \<Rightarrow> 0 | Inr v \<Rightarrow> v))"

definition amount_parses :: "compact_row \<Rightarrow> bool" where
  "amount_parses r =
     (case c_amount r of None \<Rightarrow> False
      | Some s \<Rightarrow> (case BigInt_of_string s of Inl _ \<Rightarrow> False | Inr _ \<Rightarrow> True))"

definition locally_allocated ::
  "database \<Rightarrow> string \<Rightarrow> string \<Rightarrow> string \<Rightarrow> int \<Rightarrow> int \<Rightarrow> string list \<Rightarrow> int" where
  "locally_allocated db sponsor' chainId lockId now threshold reported =
     sum_list (map row_amount
       (filter (\<lambda>r. same_lock sponsor' chainId lockId r \<and> outstanding now threshold reported r)
          (compacts db)))"

text \<open>The acceptance condition of the allocation stage as the specification words it.\<close>

definition spec_allocation_accepts :: "int \<Rightarrow> int list \<Rightarrow> int \<Rightarrow> int \<Rightarrow> bool" where
  "spec_allocation_accepts snapshotBalance pendingDeltas locallyAllocated newAmount =
     (max 0 (snapshotBalance - sum_list pendingDeltas) \<ge> locallyAllocated + newAmount)"

text \<open>
  A validation result as the interface promises it: valid, or invalid with an error
  string.
\<close>

definition settled :: "ValidationResult \<Rightarrow> bool" where
  "settled r = (r = valid \<or> (\<exists>msg. r = invalid msg))"

text \<open>A property of the value a promise resolves to, if it resolves.\<close>

definition resolves_to :: "('a \<Rightarrow> bool) \<Rightarrow> 'a promise \<Rightarrow> bool" where
  "resolves_to P m = (case m of Inl _ \<Rightarrow> True | Inr r \<Rightarrow> P r)"

text \<open>The \<open>m\<close> big-endian bytes of a number below \<open>256^m\<close>.\<close>

fun bytes_fixed :: "nat \<Rightarrow> nat \<Rightarrow> bytes" where
  "bytes_fixed 0 k = []"
| "bytes_fixed (Suc m) k = of_nat ((k div 256 ^ m) mod 256) # bytes_fixed m k"


text \<open>
  The schema as the specification words it: the one with the witness fields exactly when
  the witness pair is present.
\<close>

definition spec_schema :: "CompactMessage \<Rightarrow> (string \<times> eip712_type) list" where
  "spec_schema c =
     (if witnessTypeString c \<noteq> None \<and> witnessHash c \<noteq> None
      then COMPACT_WITH_WITNESS_TYPES else COMPACT_TYPES)"

text \<open>Both witness fields are strings, and neither is empty.\<close>

definition witness_pair_nonempty :: "CompactMessage \<Rightarrow> bool" where
  "witness_pair_nonempty c =
     (\<exists>w h. witnessTypeString c = Some w \<and> w \<noteq> [] \<and> witnessHash c = Some h \<and> h \<noteq> [])"


section \<open>A concrete deployment\<close>

text \<open>
  The end-to-end scenario of the specification: one sponsor, chain \<open>1\<close>, allocator id 1,
  reset-period index 7, an indexer that reports a balance of \<open>10^19\<close> with no pending
  deltas and no claims. The hash and signature functions are stand-ins that only have to
  be functions of their arguments.
\<close>

definition fx_sponsor :: string where
  "fx_sponsor = ''0xf39Fd6e51aad88F6F4ce6aB8827279cffFb92266''"

definition fx_sponsor_value :: nat where
  "fx_sponsor_value = 0xf39Fd6e51aad88F6F4ce6aB8827279cffFb92266"

definition fx_sponsor_bytes :: bytes where
  "fx_sponsor_bytes =
     [243, 159, 214, 229, 26, 173, 136, 246, 244, 206, 106, 184, 130, 114, 121, 207, 255,
      185, 34, 102]"

definition fx_details :: CompactDetails where
  "fx_details =
     \<lparr>resourceLocks = [\<lparr>balance = ''10000000000000000000'', withdrawalStatus = 0\<rparr>],
      claims = [], supportedChains = [''1''], accountDeltas = []\<rparr>"

definition fx_hashTypedData :: "typed_data \<Rightarrow> string promise" where
  "fx_hashTypedData td =
     (case map snd (td_message td) of
        V_address a # V_address s # V_uint256 (Some n) # V_uint256 (Some e)
          # V_uint256 (Some i) # V_uint256 (Some am) # _ \<Rightarrow>
          Inr (''0x'' @ hex_fixed 64 (nat ((n + e + i + am) mod 2 ^ 256)))
      | _ \<Rightarrow> Inl (Error ''Cannot convert null to a BigInt''))"

definition bytesToHex :: "bytes \<Rightarrow> string" where
  "bytesToHex bs = concat (map (\<lambda>b. hex_fixed 2 (unat b)) bs)"

definition fx_env :: env where
  "fx_env =
     \<lparr>now_expiration = 1700000000, now_domain = 1700000000, now_balance = 1700000000,
      NODE_ENV = ''production'', ALLOCATOR_ADDRESS = fx_sponsor,
      getCompactDetails = (\<lambda>_. Inr fx_details),
      getFinalizationThreshold = (\<lambda>_. Inr 25),
      hashTypedData = fx_hashTypedData,
      keccak256 = (\<lambda>m. take 32 (rev m)),
      sign = (\<lambda>h. Inr (''0x'' @ bytesToHex h @ bytesToHex h @ ''1b'')),
      sql_NOW = 1700000000,
      large_toString = (\<lambda>_. [])\<rparr>"

definition fx_db :: database where
  "fx_db = \<lparr>nonces = [], compacts = [], fault = (\<lambda>_. None), range_fault = (\<lambda>_ _. None)\<rparr>"

definition fx_id :: int where
  "fx_id = 7 * 2 ^ 252 + 2 ^ 160"

definition fx_compact :: "int option \<Rightarrow> string \<Rightarrow> CompactMessage" where
  "fx_compact n a =
     \<lparr>arbiter = fx_sponsor, sponsor = fx_sponsor, nonce = n,
      expires = 1700003600, compact_id = fx_id, amount = a,
      witnessTypeString = None, witnessHash = None\<rparr>"

definition fx_submission :: "int option \<Rightarrow> string \<Rightarrow> CompactSubmission" where
  "fx_submission n a = \<lparr>s_chainId = ''1'', s_compact = fx_compact n a\<rparr>"

text \<open>
  A ledger in which the sponsor has used every fragment from \<open>(0, 0)\<close> to
  \<open>(0, 2^31 - 1)\<close>, and \<open>(1, 0)\<close>.
\<close>

definition fx_full_rows :: "(int \<times> int) list" where
  "fx_full_rows = map (Pair 0) [0..2147483647] @ [(1, 0)]"

definition fx_full_db :: database where
  "fx_full_db =
     \<lparr>nonces = map (\<lambda>r. \<lparr>n_chain_id = ''1'', n_sponsor = fx_sponsor_bytes,
                          n_nonce_high = fst r, n_nonce_low = snd r\<rparr>) fx_full_rows,
      compacts = [], fault = (\<lambda>_. None), range_fault = (\<lambda>_ _. None)\<rparr>"


text \<open>
  What the stand-ins give for a compact of the deployment with nonce \<open>v\<close> and amount
  \<open>av\<close>: its hash and its signature.
\<close>

definition fx_digest :: "int \<Rightarrow> int \<Rightarrow> nat" where
  "fx_digest v av = nat ((v + 1700003600 + fx_id + av) mod 2 ^ 256)"

definition fx_hash :: "int \<Rightarrow> int \<Rightarrow> string" where
  "fx_hash v av = ''0x'' @ hex_fixed 64 (fx_digest v av)"

definition fx_signature :: "int \<Rightarrow> int \<Rightarrow> string" where
  "fx_signature v av =
     (let h = take 32 (rev (presignMessagePrefix @ [51, 50] @ bytes_fixed 32 (fx_digest v av)))
      in ''0x'' @ bytesToHex h @ bytesToHex h @ ''1b'')"

text \<open>The database after \<open>storeCompact\<close> has inserted a submission of the deployment.\<close>

definition fx_stored :: "database \<Rightarrow> int option \<Rightarrow> string \<Rightarrow> int \<Rightarrow> int \<Rightarrow> database" where
  "fx_stored db n a v av =
     db\<lparr>compacts := compacts db @
       [\<lparr>c_chain_id = ''1'', c_compact = Some (fx_compact n a), c_hash = Some (fx_hash v av),
         c_signature = Some (fx_signature v av), c_created_at = Some 1700000000,
         c_sponsor = None, c_compact_id = None, c_expires = None,
         c_amount = None, c_claim_hash = None\<rparr>]\<rparr>"

text \<open>
  Two compacts of the test fixture's kind: one with a witness, and one whose witness type
  string is present but empty.
\<close>

definition fx_witness_compact :: CompactMessage where
  "fx_witness_compact =
     (fx_compact (Some (packNonce fx_sponsor_value 0 0)) ''1000000000000000000'')
       \<lparr>witnessTypeString := Some ''witness-type'',
        witnessHash :=
          Some ''0x1234567890123456789012345678901234567890123456789012345678901234''\<rparr>"

definition fx_empty_witness_compact :: CompactMessage where
  "fx_empty_witness_compact =
     (fx_compact (Some (packNonce fx_sponsor_value 0 0)) ''1000000000000000000'')
       \<lparr>witnessTypeString := Some [],
        witnessHash :=
          Some ''0x1234567890123456789012345678901234567890123456789012345678901234''\<rparr>"

text \<open>
  The nonce of fragment \<open>(0, 0)\<close>, the nonce of fragment \<open>(0, 2^31)\<close>, and the
  database after the compact of amount \<open>10^18\<close> with the first nonce is admitted.
\<close>

definition fx_nonce0 :: int where
  "fx_nonce0 = packNonce fx_sponsor_value 0 0"

definition fx_nonce_bit31 :: int where
  "fx_nonce_bit31 = packNonce fx_sponsor_value 0 (2 ^ 31)"


text \<open>
  The same database with the columns of the specification: \<open>nonce_high\<close> a signed 64-bit
  and \<open>nonce_low\<close> a signed 32-bit integer.
\<close>

definition fx_db_typed :: database where
  "fx_db_typed =
     fx_db\<lparr>range_fault :=
       (\<lambda>nonceHigh nonceLow.
          if nonceHigh < - (2 ^ 63) \<or> 2 ^ 63 - 1 < nonceHigh
            then Some (Error ''value out of range for type bigint'')
          else if nonceLow < - (2 ^ 31) \<or> 2 ^ 31 - 1 < nonceLow
            then Some (Error ''value out of range for type integer'')
          else None)\<rparr>"

section \<open>Properties of the bit fields\<close>

lemma resetPeriodIndex_div_mod: "int (resetPeriodIndex i) = (i div 2 ^ 252) mod 2 ^ 3"
proof -
  have "(7::int) = mask 3" by (simp add: mask_eq_exp_minus_1)
  then have "drop_bit 252 i AND 7 = take_bit 3 (drop_bit 252 i)"
    by (simp add: take_bit_eq_mask)
  then show ?thesis
    by (simp add: resetPeriodIndex_def take_bit_eq_mod drop_bit_eq_div)
qed

lemma allocatorId_div_mod: "allocatorId i = (i div 2 ^ 160) mod 2 ^ 92"
proof -
  have "push_bit 92 1 - 1 = (mask 92 :: int)" by (simp add: mask_eq_exp_minus_1)
  then have "allocatorId i = take_bit 92 (drop_bit 160 i)"
    unfolding allocatorId_def by (simp only: take_bit_eq_mask)
  then show ?thesis
    by (simp add: take_bit_eq_mod drop_bit_eq_div)
qed

lemma resetPeriodIndex_less: "resetPeriodIndex i < length resetPeriods"
proof -
  have "int (resetPeriodIndex i) < 8"
    by (simp add: resetPeriodIndex_div_mod)
  then show ?thesis by (simp add: resetPeriods_def)
qed

text \<open>
  C4 (as amended). The code reads \<open>resetPeriodIndex\<close> from bits 254..252 and
  \<open>allocatorId\<close> from bits 251..160 (a 92-bit field); bit 255 of the id is part of
  neither field.
\<close>

theorem C4_id_fields_bits:
  "bit (int (resetPeriodIndex i)) k = (k < 3 \<and> bit i (252 + k))
   \<and> bit (allocatorId i) j = (j < 92 \<and> bit i (160 + j))"
proof
  have "int (resetPeriodIndex i) = take_bit 3 (drop_bit 252 i)"
    by (simp add: resetPeriodIndex_div_mod take_bit_eq_mod drop_bit_eq_div)
  then show "bit (int (resetPeriodIndex i)) k = (k < 3 \<and> bit i (252 + k))"
    by (simp add: bit_take_bit_iff bit_drop_bit_eq add.commute)
  have "allocatorId i = take_bit 92 (drop_bit 160 i)"
    by (simp add: allocatorId_div_mod take_bit_eq_mod drop_bit_eq_div)
  then show "bit (allocatorId i) j = (j < 92 \<and> bit i (160 + j))"
    by (simp add: bit_take_bit_iff bit_drop_bit_eq add.commute)
qed

text \<open>
  C4 (as stated) fails: at the 256-bit id \<open>2^255 + 2^252\<close> the specification's layout gives
  reset-period index 4 and an allocator id with bit 92 set, the code index 1 and
  allocator id 0.
\<close>

theorem C4_counterexample:
  "int (resetPeriodIndex (2 ^ 255 + 2 ^ 252)) \<noteq> spec_resetPeriodIndex (2 ^ 255 + 2 ^ 252)
   \<and> allocatorId (2 ^ 255 + 2 ^ 252) \<noteq> spec_allocatorId (2 ^ 255 + 2 ^ 252)"
  by (simp add: resetPeriodIndex_div_mod allocatorId_div_mod spec_resetPeriodIndex_def
      spec_allocatorId_def)

section \<open>Hexadecimal strings\<close>

lemma below_16:
  assumes "(d::nat) < 16"
  shows "d = 0 \<or> d = 1 \<or> d = 2 \<or> d = 3 \<or> d = 4 \<or> d = 5 \<or> d = 6 \<or> d = 7
       \<or> d = 8 \<or> d = 9 \<or> d = 10 \<or> d = 11 \<or> d = 12 \<or> d = 13 \<or> d = 14 \<or> d = 15"
  using assms by presburger

lemma charCodeToBase16_hex_char:
  assumes "d < 16" shows "charCodeToBase16 (hex_char d) = Some d"
  using below_16 [OF assms] by (elim disjE) (simp_all add: charCodeToBase16_def hex_char_def)

lemma not_white_hex_char:
  assumes "d < 16" shows "\<not> isStrWhiteSpaceChar (hex_char d)"
  using below_16 [OF assms] by (elim disjE) (simp_all add: isStrWhiteSpaceChar_def hex_char_def)

lemma length_hex_fixed [simp]: "length (hex_fixed w n) = w"
  by (induction w arbitrary: n) simp_all

lemma hex_fixed_zero: "hex_fixed w 0 = replicate w CHR ''0''"
  by (induction w) (simp_all add: hex_char_def replicate_append_same)

lemma toString16_hex_fixed:
  "n < 16 ^ Suc w \<Longrightarrow>
     length (toString16 n) \<le> Suc w
     \<and> replicate (Suc w - length (toString16 n)) CHR ''0'' @ toString16 n = hex_fixed (Suc w) n"
proof (induction w arbitrary: n)
  case 0
  then show ?case by (simp add: toString16.simps)
next
  case (Suc w)
  show ?case
  proof (cases "n < 16")
    case True
    then show ?thesis
      by (simp add: toString16.simps [of n] hex_fixed_zero replicate_append_same)
  next
    case False
    from Suc.prems have "n div 16 < 16 ^ Suc w" by (simp add: less_mult_imp_div_less)
    from Suc.IH [OF this] False show ?thesis
      by (simp add: toString16.simps [of n] Suc_diff_le)
  qed
qed


lemma digits_value_snoc:
  "digits_value b acc (xs @ [c]) =
     (case digits_value b acc xs of None \<Rightarrow> None
      | Some a \<Rightarrow> (case charCodeToBase16 c of None \<Rightarrow> None
                  | Some d \<Rightarrow> if d < b then Some (a * b + d) else None))"
  by (induction xs arbitrary: acc) (auto split: option.splits)

lemma digits_value_hex_fixed:
  "digits_value 16 acc (hex_fixed w n) = Some (acc * 16 ^ w + n mod 16 ^ w)"
proof (induction w arbitrary: n)
  case 0
  then show ?case by simp
next
  case (Suc w)
  have "n mod 16 ^ Suc w = 16 * ((n div 16) mod 16 ^ w) + n mod 16"
    by (simp add: mod_mult2_eq)
  then show ?case
    by (simp add: digits_value_snoc Suc.IH charCodeToBase16_hex_char algebra_simps)
qed

lemma hex_fixed_add: "hex_fixed (a + b) n = hex_fixed a (n div 16 ^ b) @ hex_fixed b n"
  by (induction b arbitrary: n) (simp_all add: div_mult2_eq)

lemma hex_fixed_mod: "hex_fixed w (n mod 16 ^ w) = hex_fixed w n"
proof (induction w arbitrary: n)
  case 0
  then show ?case by simp
next
  case (Suc w)
  have "(n mod 16 ^ Suc w) div 16 = (n div 16) mod 16 ^ w"
    by (simp add: mod_mult2_eq)
  moreover have "(n mod 16 ^ Suc w) mod 16 = n mod 16"
    by (simp add: mod_mod_cancel)
  ultimately show ?case using Suc.IH [of "n div 16"] by simp
qed


lemma trimString_id:
  assumes "s \<noteq> []" "\<not> isStrWhiteSpaceChar (hd s)" "\<not> isStrWhiteSpaceChar (last s)"
  shows "trimString s = s"
proof -
  have 1: "dropWhile isStrWhiteSpaceChar s = s"
    using assms(2) by (simp add: dropWhile_eq_self_iff)
  have "dropWhile isStrWhiteSpaceChar (rev s) = rev s"
    using assms(3) by (simp add: dropWhile_eq_self_iff hd_rev)
  then show ?thesis by (simp add: trimString_def 1)
qed

lemma BigInt_of_hex_fixed:
  "BigInt_of_string (''0x'' @ hex_fixed (Suc w) n) = Inr (int (n mod 16 ^ Suc w))"
proof -
  let ?s = "''0x'' @ hex_fixed (Suc w) n"
  have "\<not> isStrWhiteSpaceChar (last ?s)"
    by (simp add: not_white_hex_char)
  moreover have "\<not> isStrWhiteSpaceChar (hd ?s)"
    by (simp add: isStrWhiteSpaceChar_def)
  ultimately have t: "trimString ?s = ?s"
    by (intro trimString_id) simp_all
  have "parse_digits 16 (hex_fixed (Suc w) n) = Some (n mod 16 ^ Suc w)"
    unfolding parse_digits_def using digits_value_hex_fixed [of 0 "Suc w" n] by simp
  then show ?thesis
    unfolding BigInt_of_string_def t by (simp add: Let_def)
qed

section \<open>Splitting a nonce\<close>

lemma bigintToHex_hex_fixed:
  assumes "0 \<le> v" "v < 2 ^ 256"
  shows "bigintToHex v = Inr (hex_fixed 64 (nat v))"
proof -
  have "nat v < 16 ^ Suc 63"
    using assms by (simp add: nat_less_iff)
  from toString16_hex_fixed [OF this]
  have "padStart 64 CHR ''0'' (toString16 (nat v)) = hex_fixed 64 (nat v)"
    by (simp add: padStart_def)
  then show ?thesis
    using assms by (simp add: bigintToHex_def numberToHex32_def then_do_def)
qed

lemma bit_length_le: "bit_length n \<le> k \<longleftrightarrow> n < 2 ^ k"
proof (induction n arbitrary: k rule: bit_length.induct)
  case (1 n)
  show ?case
  proof (cases "n = 0")
    case True
    then show ?thesis by (simp add: bit_length.simps)
  next
    case False
    show ?thesis
    proof (cases k)
      case 0
      with False show ?thesis by (simp add: bit_length.simps [of n])
    next
      case (Suc j)
      have "bit_length n \<le> Suc j \<longleftrightarrow> bit_length (n div 2) \<le> j"
        using False by (simp add: bit_length.simps [of n])
      also have "\<dots> \<longleftrightarrow> n div 2 < 2 ^ j"
        using "1.IH" [OF False] by simp
      also have "\<dots> \<longleftrightarrow> n < 2 ^ Suc j"
        by auto
      finally show ?thesis using Suc by simp
    qed
  qed
qed

lemma Number_of_bigint_exact:
  assumes "0 \<le> b" "b < 2 ^ 53"
  shows "Number_of_bigint b = b"
proof -
  have "nat \<bar>b\<bar> < 2 ^ 53" using assms by (simp add: nat_less_iff)
  then have "bit_length (nat \<bar>b\<bar>) \<le> 53" by (simp only: bit_length_le)
  then show ?thesis by (simp add: Number_of_bigint_def Let_def)
qed

lemma fragment_high_low_hex_fixed:
  "fragment_high_low (hex_fixed 24 f) =
     Inr (Number_of_bigint (int ((f mod 2 ^ 96) div 2 ^ 32)), Number_of_bigint (int (f mod 2 ^ 32)))"
proof -
  have b: "BigInt_of_string (''0x'' @ hex_fixed 24 f) = Inr (int (f mod 2 ^ 96))"
    using BigInt_of_hex_fixed [of 23 f] by simp
  have "(4294967295::int) = mask 32" by (simp add: mask_eq_exp_minus_1)
  then have m: "int (f mod 2 ^ 96) AND 4294967295 = take_bit 32 (int (f mod 2 ^ 96))"
    by (simp only: take_bit_eq_mask)
  have "take_bit 32 (int (f mod 2 ^ 96)) = int (f mod 2 ^ 32)"
    by (simp add: take_bit_eq_mod zmod_int mod_mod_cancel)
  with m have l: "int (f mod 2 ^ 96) AND 4294967295 = int (f mod 2 ^ 32)" by simp
  have h: "drop_bit 32 (int (f mod 2 ^ 96)) = int ((f mod 2 ^ 96) div 2 ^ 32)"
    by (simp add: drop_bit_eq_div zdiv_int)
  show ?thesis
    by (simp only: fragment_high_low_def b then_do_def sum.case Let_def l h)
qed

lemma splitNonce_eq:
  assumes "0 \<le> v" "v < 2 ^ 256"
  shows "splitNonce v =
     Inr (hex_fixed 40 (nat v div 2 ^ 96),
          Number_of_bigint ((v mod 2 ^ 96) div 2 ^ 32), Number_of_bigint (v mod 2 ^ 32))"
proof -
  have "hex_fixed 64 (nat v) = hex_fixed 40 (nat v div 16 ^ 24) @ hex_fixed 24 (nat v)"
    using hex_fixed_add [of 40 24 "nat v"] by simp
  then have t: "take 40 (hex_fixed 64 (nat v)) = hex_fixed 40 (nat v div 2 ^ 96)"
    and d: "drop 40 (hex_fixed 64 (nat v)) = hex_fixed 24 (nat v)"
    by simp_all
  have 1: "int ((nat v mod 2 ^ 96) div 2 ^ 32) = (v mod 2 ^ 96) div 2 ^ 32"
    using assms(1) by (simp add: zdiv_int zmod_int)
  have 2: "int (nat v mod 2 ^ 32) = v mod 2 ^ 32"
    using assms(1) by (simp add: zmod_int)
  show ?thesis
    by (simp only: splitNonce_def bigintToHex_hex_fixed [OF assms] then_do_def sum.case
        t d fragment_high_low_hex_fixed 1 2 prod.case)
qed

lemma packNonce_fields:
  assumes "0 \<le> h" "h < 2 ^ 64" "0 \<le> l" "l < 2 ^ 32"
  shows "nat (packNonce a h l) div 2 ^ 96 = a"
    and "(packNonce a h l mod 2 ^ 96) div 2 ^ 32 = h"
    and "packNonce a h l mod 2 ^ 32 = l"
    and "0 \<le> packNonce a h l"
proof -
  have f: "0 \<le> h * 2 ^ 32 + l" "h * 2 ^ 32 + l < 2 ^ 96"
    using assms by auto
  have p: "packNonce a h l = (h * 2 ^ 32 + l) + int a * 2 ^ 96"
    by (simp add: packNonce_def)
  show "0 \<le> packNonce a h l" using f by (simp add: p)
  have "packNonce a h l div 2 ^ 96 = int a"
    unfolding p using f by (simp add: div_pos_pos_trivial)
  then show "nat (packNonce a h l) div 2 ^ 96 = a"
    by (metis nat_int nat_div_distrib nat_numeral nat_power_eq zero_le_numeral \<open>0 \<le> packNonce a h l\<close>)
  have m: "packNonce a h l mod 2 ^ 96 = h * 2 ^ 32 + l"
    unfolding p using f by (simp add: mod_pos_pos_trivial)
  show "(packNonce a h l mod 2 ^ 96) div 2 ^ 32 = h"
    unfolding m using assms by (simp add: div_pos_pos_trivial)
  have "packNonce a h l = l + (int a * 2 ^ 64 + h) * 2 ^ 32"
    by (simp add: packNonce_def algebra_simps)
  then have "packNonce a h l mod 2 ^ 32 = l mod 2 ^ 32"
    by (simp only: mod_mult_self1)
  then show "packNonce a h l mod 2 ^ 32 = l"
    using assms by (simp only: mod_pos_pos_trivial)
qed

section \<open>Nonce validation\<close>

lemma then_do_Inr [simp]: "then_do (Inr v) f = f v"
  by (simp add: then_do_def)

lemma then_do_Inl [simp]: "then_do (Inl e) f = Inl e"
  by (simp add: then_do_def)

lemma then_do_eq_Inr:
  "then_do m f = Inr r \<longleftrightarrow> (\<exists>v. m = Inr v \<and> f v = Inr r)"
  by (cases m) simp_all

lemma db_query_eq_Inr: "db_query db st r = Inr x \<longleftrightarrow> fault db st = None \<and> x = r"
  by (auto simp: db_query_def split: option.splits)

lemma valid_neq_invalid [simp]: "valid \<noteq> invalid m" "invalid m \<noteq> valid"
  by (simp_all add: valid_def invalid_def)

lemma isValid_simps [simp]: "isValid valid" "\<not> isValid (invalid m)"
  by (simp_all add: valid_def invalid_def)

lemma error_simps [simp]: "error valid = None" "error (invalid m) = Some m"
  by (simp_all add: valid_def invalid_def)

lemma getAddress_eq_Inr:
  "getAddress s = Inr a \<longleftrightarrow> isAddress s \<and> a = Address (toLowerCase (drop 2 s))"
  by (auto simp: getAddress_def)



lemma fragment_high_low_total: "\<exists>h l. fragment_high_low (hex_fixed 24 f) = Inr (h, l)"
  by (simp only: fragment_high_low_hex_fixed) blast

lemma validateNonce_body_eq:
  assumes "0 \<le> v" "v < 2 ^ 256" "isAddress s" "addressToBytes s = Inr bs"
  shows "validateNonce_body v s c db =
     (if hex_fixed 40 (nat v div 2 ^ 96) \<noteq> toLowerCase (drop 2 s)
      then Inr (invalid ''Nonce does not match sponsor address'')
      else case fault db SelectNonceCount of
             Some e \<Rightarrow> Inl e
           | None \<Rightarrow>
               (case range_fault db (Number_of_bigint ((v mod 2 ^ 96) div 2 ^ 32))
                       (Number_of_bigint (v mod 2 ^ 32)) of
                  Some e \<Rightarrow> Inl e
                | None \<Rightarrow>
                    if nonce_count db c bs (Number_of_bigint ((v mod 2 ^ 96) div 2 ^ 32))
                         (Number_of_bigint (v mod 2 ^ 32)) > 0
                    then Inr (invalid ''Nonce has already been used'')
                    else Inr valid))"
proof -
  have "hex_fixed 64 (nat v) = hex_fixed 40 (nat v div 16 ^ 24) @ hex_fixed 24 (nat v)"
    using hex_fixed_add [of 40 24 "nat v"] by simp
  then have t: "take 40 (hex_fixed 64 (nat v)) = hex_fixed 40 (nat v div 2 ^ 96)"
    and d: "drop 40 (hex_fixed 64 (nat v)) = hex_fixed 24 (nat v)"
    by simp_all
  have 1: "int ((nat v mod 2 ^ 96) div 2 ^ 32) = (v mod 2 ^ 96) div 2 ^ 32"
    using assms(1) by (simp add: zdiv_int zmod_int)
  have 2: "int (nat v mod 2 ^ 32) = v mod 2 ^ 32"
    using assms(1) by (simp add: zmod_int)
  have g: "getAddress s = Inr (Address (toLowerCase (drop 2 s)))"
    using assms(3) by (simp add: getAddress_def)
  show ?thesis
    unfolding validateNonce_body_def bigintToHex_hex_fixed [OF assms(1,2)] then_do_Inr Let_def
      t d g fragment_high_low_hex_fixed 1 2 assms(4) prod.case lower_digits_def address.case
      nonce_query_def
    by (simp split: option.splits del: hex_fixed.simps)
qed




section \<open>The concrete deployment\<close>

lemma hex_fixed_numeral:
  "hex_fixed (numeral k) n = hex_fixed (pred_numeral k) (n div 16) @ [hex_char (n mod 16)]"
  by (simp only: numeral_eq_Suc [of k] hex_fixed.simps)

lemma fx_isAddress: "isAddress fx_sponsor"
  by (simp add: fx_sponsor_def isAddress_def charCodeToBase16_def)

lemma fx_lower: "toLowerCase (drop 2 fx_sponsor) = ''f39fd6e51aad88f6f4ce6ab8827279cfffb92266''"
  by (simp add: fx_sponsor_def toLowerCase_def)

lemma fx_getAddress: "getAddress fx_sponsor = Inr (Address ''f39fd6e51aad88f6f4ce6ab8827279cfffb92266'')"
  by (simp only: getAddress_def fx_isAddress fx_lower if_True)

lemma fx_addressToBytes: "addressToBytes fx_sponsor = Inr fx_sponsor_bytes"
  by (simp add: addressToBytes_def hexToBytes_def fx_sponsor_def fx_sponsor_bytes_def
      charCodeToBase16_def)

lemma fx_hex: "hex_fixed 40 fx_sponsor_value = ''f39fd6e51aad88f6f4ce6ab8827279cfffb92266''"
  by (simp add: fx_sponsor_value_def hex_fixed_numeral hex_char_def)

lemma fx_bytes_value: "bytes_value fx_sponsor_bytes = fx_sponsor_value"
  by (simp add: bytes_value_def fx_sponsor_bytes_def fx_sponsor_value_def)

lemma fx_Buffer: "Buffer_from_hex ''f39fd6e51aad88f6f4ce6ab8827279cfffb92266'' = fx_sponsor_bytes"
  by (simp add: fx_sponsor_bytes_def charCodeToBase16_def)

lemma fx_sponsor_value_less: "fx_sponsor_value < 2 ^ 160"
  by (simp add: fx_sponsor_value_def)

section \<open>The round trip of a packed nonce\<close>

lemma splitNonce_packNonce:
  assumes "a < 2 ^ 160" "0 \<le> h" "h < 2 ^ 53" "0 \<le> l" "l < 2 ^ 32"
  shows "splitNonce (packNonce a h l) = Inr (hex_fixed 40 a, h, l)"
proof -
  have h64: "h < 2 ^ 64" using assms(3) by simp
  note f = packNonce_fields [OF assms(2) h64 assms(4,5), of a]
  have "int a * 2 ^ 96 \<le> (2 ^ 160 - 1) * 2 ^ 96"
    using assms(1) by simp
  moreover have "h * 2 ^ 32 \<le> (2 ^ 64 - 1) * 2 ^ 32"
    using h64 by simp
  ultimately have "packNonce a h l < 2 ^ 256"
    using assms(5) by (simp add: packNonce_def)
  from splitNonce_eq [OF f(4) this]
  have "splitNonce (packNonce a h l)
     = Inr (hex_fixed 40 a, Number_of_bigint h, Number_of_bigint l)"
    by (simp only: f)
  moreover have "l < 2 ^ 53" using assms(5) by simp
  ultimately show ?thesis
    using assms by (simp only: Number_of_bigint_exact)
qed

text \<open>
  C9. The split recovers the sponsor digits and \<open>low\<close>, but \<open>high\<close> passes through
  \<open>Number(...)\<close>, a double: above \<open>2^53\<close> it is rounded. At \<open>high = 2^53 + 1\<close> the split
  returns \<open>2^53\<close>. (Below \<open>2^53\<close> the round trip holds: \<open>splitNonce_packNonce\<close>.)
\<close>

theorem C9_split_rounds_high:
  "splitNonce (packNonce fx_sponsor_value (2 ^ 53 + 1) 0)
     = Inr (''f39fd6e51aad88f6f4ce6ab8827279cfffb92266'', 2 ^ 53, 0)"
proof -
  have r: "(0::int) \<le> 2 ^ 53 + 1" "(2::int) ^ 53 + 1 < 2 ^ 64" "(0::int) \<le> 0" "(0::int) < 2 ^ 32"
    by simp_all
  note f = packNonce_fields [OF r, of fx_sponsor_value]
  have "packNonce fx_sponsor_value (2 ^ 53 + 1) 0 < 2 ^ 256"
    by (simp add: packNonce_def fx_sponsor_value_def)
  from splitNonce_eq [OF f(4) this]
  have "splitNonce (packNonce fx_sponsor_value (2 ^ 53 + 1) 0)
     = Inr (hex_fixed 40 fx_sponsor_value, Number_of_bigint (2 ^ 53 + 1), Number_of_bigint 0)"
    by (simp only: f)
  moreover have "Number_of_bigint (2 ^ 53 + 1) = 2 ^ 53"
    by (simp add: Number_of_bigint_def bit_length.simps Let_def)
  moreover have "Number_of_bigint 0 = 0"
    by (simp add: Number_of_bigint_def bit_length.simps Let_def)
  ultimately show ?thesis by (simp only: fx_hex)
qed

section \<open>Nonce generation\<close>

lemma frag_key_inj:
  assumes "0 \<le> snd f" "snd f < 2 ^ 32" "0 \<le> snd g" "snd g < 2 ^ 32" "frag_key f = frag_key g"
  shows "f = g"
proof -
  have "frag_key f div 2 ^ 32 = fst f" "frag_key f mod 2 ^ 32 = snd f"
    using assms(1,2) by (simp_all add: frag_key_def div_pos_pos_trivial mod_pos_pos_trivial)
  moreover have "frag_key g div 2 ^ 32 = fst g" "frag_key g mod 2 ^ 32 = snd g"
    using assms(3,4) by (simp_all add: frag_key_def div_pos_pos_trivial mod_pos_pos_trivial)
  ultimately show ?thesis using assms(5) by (simp add: prod_eq_iff)
qed

lemma lead_Nil [simp]: "lead [] = []"
  by (simp add: lead_def)

lemma lead_Cons:
  "lead (x # xs) = (x, case xs of [] \<Rightarrow> None | y # _ \<Rightarrow> Some y) # lead xs"
  by (cases xs) (simp_all add: lead_def)

lemma fst_set_lead: "fst ` set (lead xs) = set xs"
  by (induction xs) (simp_all add: lead_Cons)

lemma flagged_set:
  assumes "sorted (map frag_key xs)" "distinct (map frag_key xs)"
  shows "fst ` set (filter gap_follows (lead xs))
           = {r \<in> set xs. frag_key r + 1 \<notin> frag_key ` set xs}"
  using assms
proof (induction xs)
  case Nil
  then show ?case by simp
next
  case (Cons x xs)
  then have IH: "fst ` set (filter gap_follows (lead xs))
           = {r \<in> set xs. frag_key r + 1 \<notin> frag_key ` set xs}"
    by simp
  have lt: "\<forall>y \<in> set xs. frag_key x < frag_key y"
    using Cons.prems by (auto simp: less_le)
  then have rest: "{r \<in> set xs. frag_key r + 1 \<notin> frag_key ` set (x # xs)}
                 = {r \<in> set xs. frag_key r + 1 \<notin> frag_key ` set xs}"
    by auto
  have xnot: "x \<notin> set xs" using lt by auto
  note prems = Cons.prems
  show ?case
  proof (cases xs)
    case Nil
    then show ?thesis by (auto simp: lead_Cons gap_follows_def)
  next
    case (Cons y ys)
    have ymin: "\<forall>z \<in> set xs. frag_key y \<le> frag_key z"
      using prems(1) Cons by auto
    have "gap_follows (x, Some y) \<longleftrightarrow> frag_key x + 1 \<notin> frag_key ` set (x # xs)"
    proof
      assume "gap_follows (x, Some y)"
      then have "frag_key y > frag_key x + 1" by (simp add: gap_follows_def)
      with ymin show "frag_key x + 1 \<notin> frag_key ` set (x # xs)" by fastforce
    next
      assume a: "frag_key x + 1 \<notin> frag_key ` set (x # xs)"
      have "frag_key x < frag_key y" using lt Cons by simp
      moreover have "frag_key y \<noteq> frag_key x + 1" using a Cons by auto
      ultimately show "gap_follows (x, Some y)" by (simp add: gap_follows_def)
    qed
    then show ?thesis
      using IH rest xnot Cons by (auto simp: lead_Cons)
  qed
qed

lemma set_gaps:
  assumes "distinct rows" "inj_on frag_key (set rows)"
  shows "set (gaps rows) =
           gap_after ` {r \<in> set rows. frag_key r + 1 \<notin> frag_key ` set rows}
           \<union> (if (0, 0) \<in> set rows then {} else {(0, 0)})"
proof -
  let ?xs = "sort_key frag_key rows"
  have s: "sorted (map frag_key ?xs)" by (rule sorted_sort_key)
  have "distinct ?xs" using assms(1) by simp
  moreover have "inj_on frag_key (set ?xs)" using assms(2) by simp
  ultimately have d: "distinct (map frag_key ?xs)" by (simp add: distinct_map)
  have "set (map (\<lambda>p. gap_after (fst p)) (filter gap_follows (numbered_gaps rows)))
          = gap_after ` (fst ` set (filter gap_follows (lead ?xs)))"
    by (simp add: numbered_gaps_def image_image)
  also have "\<dots> = gap_after ` {r \<in> set rows. frag_key r + 1 \<notin> frag_key ` set rows}"
    using flagged_set [OF s d] by simp
  finally show ?thesis by (simp add: gaps_def)
qed

lemma gaps_not_Nil: "gaps rows \<noteq> []"
proof (cases "sort_key frag_key rows")
  case Nil
  then have "rows = []" by (metis length_sort length_0_conv)
  then show ?thesis by (simp add: gaps_def)
next
  case (Cons x xs)
  have "\<exists>p \<in> set (lead (x # xs)). gap_follows p"
  proof (induction xs arbitrary: x)
    case Nil
    then show ?case by (simp add: lead_Cons gap_follows_def)
  next
    case (Cons y ys)
    then show ?case by (simp add: lead_Cons [of x])
  qed
  then have "filter gap_follows (numbered_gaps rows) \<noteq> []"
    using Cons by (simp add: numbered_gaps_def filter_empty_conv)
  then show ?thesis by (simp add: gaps_def)
qed

lemma next_nonce_least:
  "\<exists>g. next_nonce rows = Some g \<and> g \<in> set (gaps rows)
       \<and> (\<forall>g' \<in> set (gaps rows). frag_key g \<le> frag_key g')"
proof -
  let ?gs = "sort_key frag_key (gaps rows)"
  have "?gs \<noteq> []" using gaps_not_Nil [of rows] by (metis length_sort length_0_conv)
  then obtain g rest where gs: "?gs = g # rest" by (cases ?gs) auto
  have "sorted (map frag_key ?gs)" by (rule sorted_sort_key)
  then have "\<forall>g' \<in> set ?gs. frag_key g \<le> frag_key g'"
    unfolding gs by auto
  then have least: "\<forall>g' \<in> set (gaps rows). frag_key g \<le> frag_key g'"
    by simp
  have "g \<in> set ?gs" unfolding gs by simp
  then have mem: "g \<in> set (gaps rows)" by simp
  have "next_nonce rows = Some g" by (simp add: next_nonce_def gs)
  then show ?thesis using mem least by blast
qed


lemma next_nonce_first_used: "next_nonce [(0, 0)] = Some (0, 1)"
  by (simp add: next_nonce_def gaps_def numbered_gaps_def lead_Cons gap_follows_def gap_after_def)

lemma push_bit_or_low:
  assumes "0 \<le> x" "x < 2 ^ n"
  shows "push_bit n (a::int) OR x = a * 2 ^ n + x"
proof -
  have x: "take_bit n x = x" using assms by (rule take_bit_int_eq_self)
  have "push_bit n a AND take_bit n x = 0"
    by (auto simp: bit_eq_iff bit_simps)
  then have "push_bit n a + x = push_bit n a OR x"
    using x disjunctive_add_eq_or by metis
  then show ?thesis by (simp add: push_bit_eq_mult)
qed

lemma pack_by_or:
  assumes "0 \<le> h" "h < 2 ^ 64" "0 \<le> l" "l < 2 ^ 32"
  shows "push_bit 96 (int a) OR (push_bit 32 h OR l) = packNonce a h l"
proof -
  have 1: "push_bit 32 h OR l = h * 2 ^ 32 + l"
    using assms(3,4) by (rule push_bit_or_low)
  have "h * 2 ^ 32 \<le> (2 ^ 64 - 1) * 2 ^ 32" using assms(2) by simp
  then have "0 \<le> h * 2 ^ 32 + l" "h * 2 ^ 32 + l < 2 ^ 96"
    using assms by auto
  then have "push_bit 96 (int a) OR (h * 2 ^ 32 + l) = int a * 2 ^ 96 + (h * 2 ^ 32 + l)"
    by (rule push_bit_or_low)
  then show ?thesis by (simp add: 1 packNonce_def)
qed

lemma next_nonce_least_absent:
  assumes "distinct rows" "\<forall>r \<in> set rows. valid_fragment r"
    and "\<forall>h. (h, 2147483647) \<in> set rows \<longrightarrow> (h + 1, 0) \<notin> set rows"
  shows "\<exists>m. next_nonce rows = Some m \<and> m \<notin> set rows
             \<and> 0 \<le> fst m \<and> fst m \<le> 2 ^ 63 \<and> 0 \<le> snd m \<and> snd m \<le> 2147483647
             \<and> (\<forall>f. valid_fragment f \<and> f \<notin> set rows \<longrightarrow> frag_key m \<le> frag_key f)"
proof -
  have inj2: "f = g" if "valid_fragment f" "valid_fragment g" "frag_key f = frag_key g" for f g
    using that by (intro frag_key_inj) (auto simp: valid_fragment_def)
  have inj: "inj_on frag_key (set rows)"
  proof (rule inj_onI)
    fix x y assume "x \<in> set rows" "y \<in> set rows" "frag_key x = frag_key y"
    with assms(2) show "x = y" by (intro inj2) blast+
  qed
  note sg = set_gaps [OF assms(1) inj]
  obtain g where g: "next_nonce rows = Some g" "g \<in> set (gaps rows)"
    "\<forall>g' \<in> set (gaps rows). frag_key g \<le> frag_key g'"
    using next_nonce_least [of rows] by blast
  have gaps_ok: "x \<notin> set rows \<and> 0 \<le> fst x \<and> fst x \<le> 2 ^ 63 \<and> 0 \<le> snd x \<and> snd x \<le> 2147483647"
    if "x \<in> set (gaps rows)" for x
  proof -
    from that consider "x = (0, 0)" "(0, 0) \<notin> set rows"
      | r where "r \<in> set rows" "frag_key r + 1 \<notin> frag_key ` set rows" "x = gap_after r"
      unfolding sg by (auto split: if_splits)
    then show ?thesis
    proof cases
      case 1
      then show ?thesis by simp
    next
      case 2
      from 2(1) assms(2) have v: "valid_fragment r" by blast
      show ?thesis
      proof (cases "snd r = 2147483647")
        case True
        then have "(fst r, 2147483647) \<in> set rows" using 2(1) by (metis prod.collapse)
        with assms(3) have "(fst r + 1, 0) \<notin> set rows" by blast
        with True v 2(3) show ?thesis by (simp add: gap_after_def valid_fragment_def)
      next
        case False
        then have x: "x = (fst r, snd r + 1)" using 2(3) by (simp add: gap_after_def)
        then have "frag_key x = frag_key r + 1" by (simp add: frag_key_def)
        with 2(2) have "x \<notin> set rows" by force
        with x v False show ?thesis by (simp add: valid_fragment_def)
      qed
    qed
  qed
  have cover: "\<exists>x \<in> set (gaps rows). frag_key x \<le> frag_key f"
    if f: "valid_fragment f" "f \<notin> set rows" for f
  proof -
    let ?S = "{r \<in> set rows. frag_key r < frag_key f}"
    have f0: "0 \<le> frag_key f" using f(1) by (simp add: valid_fragment_def frag_key_def)
    show ?thesis
    proof (cases "?S = {}")
      case True
      have "(0, 0) \<notin> set rows"
      proof
        assume z: "(0, 0) \<in> set rows"
        with True have "\<not> frag_key (0, 0) < frag_key f" by blast
        with f0 have "frag_key f = frag_key (0, 0)" by (simp add: frag_key_def)
        then have "f = (0, 0)" using f(1) by (intro inj2) (simp_all add: valid_fragment_def)
        with z f(2) show False by simp
      qed
      then have "(0, 0) \<in> set (gaps rows)" by (simp add: sg)
      moreover have "frag_key (0, 0) \<le> frag_key f" using f0 by (simp add: frag_key_def)
      ultimately show ?thesis by blast
    next
      case False
      have "finite (frag_key ` ?S)" by simp
      moreover have "frag_key ` ?S \<noteq> {}" using False by simp
      ultimately have "Max (frag_key ` ?S) \<in> frag_key ` ?S" by (rule Max_in)
      then obtain p where p: "p \<in> ?S" "frag_key p = Max (frag_key ` ?S)" by auto
      have pmax: "frag_key r \<le> frag_key p" if "r \<in> ?S" for r
        using that p(2) by simp
      have vp: "valid_fragment p" using p(1) assms(2) by blast
      have "frag_key p + 1 \<notin> frag_key ` set rows"
      proof
        assume "frag_key p + 1 \<in> frag_key ` set rows"
        then obtain r where r: "r \<in> set rows" "frag_key r = frag_key p + 1" by auto
        have "frag_key r \<noteq> frag_key f"
        proof
          assume "frag_key r = frag_key f"
          then have "r = f" using r(1) assms(2) f(1) by (intro inj2) auto
          with r(1) f(2) show False by simp
        qed
        with r(2) p(1) have "frag_key r < frag_key f" by simp
        with r(1) have "r \<in> ?S" by simp
        from pmax [OF this] r(2) show False by simp
      qed
      with p(1) have "gap_after p \<in> set (gaps rows)" by (auto simp: sg)
      moreover have "frag_key (gap_after p) \<le> frag_key f"
      proof (cases "snd p = 2147483647")
        case True
        have "fst p * 2 ^ 32 + snd p < fst f * 2 ^ 32 + snd f"
          using p(1) by (simp add: frag_key_def)
        then have "fst p * 2 ^ 32 < fst f * 2 ^ 32"
          using True f(1) by (simp add: valid_fragment_def)
        then have "fst p < fst f" by simp
        then have "(fst p + 1) * 2 ^ 32 \<le> fst f * 2 ^ 32" by simp
        then show ?thesis
          using True f(1) by (simp add: gap_after_def frag_key_def valid_fragment_def)
      next
        case False
        then show ?thesis
          using p(1) by (simp add: gap_after_def frag_key_def)
      qed
      ultimately show ?thesis by blast
    qed
  qed
  have "\<forall>f. valid_fragment f \<and> f \<notin> set rows \<longrightarrow> frag_key g \<le> frag_key f"
  proof (intro allI impI)
    fix f assume "valid_fragment f \<and> f \<notin> set rows"
    then obtain x where "x \<in> set (gaps rows)" "frag_key x \<le> frag_key f"
      using cover by blast
    with g(3) show "frag_key g \<le> frag_key f" by force
  qed
  with g(1) gaps_ok [OF g(2)] show ?thesis by blast
qed

lemma generateNonce_least_absent:
  assumes "isAddress s" "fault db SelectNextNonce = None"
    and "bs = Buffer_from_hex (toLowerCase (drop 2 s))"
    and "rows = sponsor_rows db c bs"
    and "distinct rows" "\<forall>r \<in> set rows. valid_fragment r"
    and "\<forall>h. (h, 2147483647) \<in> set rows \<longrightarrow> (h + 1, 0) \<notin> set rows"
  shows "\<exists>h l. generateNonce s c db = Inr (packNonce (bytes_value bs) h l)
             \<and> (h, l) \<notin> set rows \<and> 0 \<le> h \<and> 0 \<le> l \<and> l \<le> 2147483647
             \<and> (\<forall>f. valid_fragment f \<and> f \<notin> set rows \<longrightarrow> frag_key (h, l) \<le> frag_key f)"
proof -
  obtain m where m: "next_nonce rows = Some m" "m \<notin> set rows"
    "0 \<le> fst m" "fst m \<le> 2 ^ 63" "0 \<le> snd m" "snd m \<le> 2147483647"
    "\<forall>f. valid_fragment f \<and> f \<notin> set rows \<longrightarrow> frag_key m \<le> frag_key f"
    using next_nonce_least_absent [OF assms(5,6,7)] by blast
  have "fst m < 2 ^ 64" "snd m < 2 ^ 32" using m(4,6) by simp_all
  from pack_by_or [OF m(3) this(1) m(5) this(2)]
  have p: "push_bit 96 (int (bytes_value bs)) OR (push_bit 32 (fst m) OR snd m)
             = packNonce (bytes_value bs) (fst m) (snd m)" .
  have g: "getAddress s = Inr (Address (toLowerCase (drop 2 s)))"
    using assms(1) by (simp add: getAddress_def)
  have "generateNonce s c db = Inr (packNonce (bytes_value bs) (fst m) (snd m))"
    unfolding generateNonce_def g then_do_Inr lower_digits_def address.case Let_def
      assms(3) [symmetric] assms(4) [symmetric] db_query_def assms(2) option.case m(1)
    using m(3,5) p by (simp add: case_prod_beta)
  with m show ?thesis by (metis prod.collapse)
qed


lemma generateNonce_first_used:
  assumes "isAddress s" "fault db SelectNextNonce = None"
    and "bs = Buffer_from_hex (toLowerCase (drop 2 s))"
    and "sponsor_rows db c bs = [(0, 0)]"
  shows "generateNonce s c db = Inr (packNonce (bytes_value bs) 0 1)"
proof -
  have g: "getAddress s = Inr (Address (toLowerCase (drop 2 s)))"
    using assms(1) by (simp add: getAddress_def)
  show ?thesis
    unfolding generateNonce_def g then_do_Inr lower_digits_def address.case Let_def
      assms(3) [symmetric] assms(4) db_query_def assms(2) option.case next_nonce_first_used
    using pack_by_or [of 0 1 "bytes_value bs"] by simp
qed

section \<open>A ledger on which the generated nonce is used\<close>

lemma set_fx_full_rows:
  "set fx_full_rows = {(0, l) | l. 0 \<le> l \<and> l \<le> 2147483647} \<union> {(1, 0)}"
  by (auto simp: fx_full_rows_def)

lemma distinct_fx_full_rows: "distinct fx_full_rows"
  by (auto simp: fx_full_rows_def distinct_map inj_on_def)

lemma inj_fx_full_rows: "inj_on frag_key (set fx_full_rows)"
proof (rule inj_onI)
  fix f g assume "f \<in> set fx_full_rows" "g \<in> set fx_full_rows" "frag_key f = frag_key g"
  then show "f = g"
    by (intro frag_key_inj) (auto simp: set_fx_full_rows)
qed

lemma keys_fx_full_rows:
  "frag_key ` set fx_full_rows = {l. 0 \<le> l \<and> l \<le> 2147483647} \<union> {4294967296}"
  by (auto simp: set_fx_full_rows frag_key_def image_def)

lemma flagged_fx_full_rows:
  "{r \<in> set fx_full_rows. frag_key r + 1 \<notin> frag_key ` set fx_full_rows}
     = {(0, 2147483647), (1, 0)}"
  unfolding keys_fx_full_rows by (auto simp: set_fx_full_rows frag_key_def)

lemma gaps_fx_full_rows: "set (gaps fx_full_rows) = {(1, 0), (1, 1)}"
proof -
  have "(0, 0) \<in> set fx_full_rows" by (simp add: set_fx_full_rows)
  then show ?thesis
    unfolding set_gaps [OF distinct_fx_full_rows inj_fx_full_rows] flagged_fx_full_rows
    by (auto simp: gap_after_def)
qed

lemma next_nonce_fx_full_rows: "next_nonce fx_full_rows = Some (1, 0)"
proof -
  obtain g where g: "next_nonce fx_full_rows = Some g" "g \<in> set (gaps fx_full_rows)"
    "\<forall>g' \<in> set (gaps fx_full_rows). frag_key g \<le> frag_key g'"
    using next_nonce_least [of fx_full_rows] by blast
  from g(3) have "frag_key g \<le> frag_key (1, 0)"
    by (simp add: gaps_fx_full_rows)
  with g(2) have "g = (1, 0)"
    by (auto simp: gaps_fx_full_rows frag_key_def)
  with g(1) show ?thesis by simp
qed

lemma sponsor_rows_fx_full_db:
  "sponsor_rows fx_full_db ''1'' fx_sponsor_bytes = fx_full_rows"
proof -
  have "filter (\<lambda>r. n_chain_id r = ''1'' \<and> n_sponsor r = fx_sponsor_bytes) (nonces fx_full_db)
          = nonces fx_full_db"
    by (simp add: fx_full_db_def filter_map o_def)
  then show ?thesis
    by (simp add: sponsor_rows_def) (simp add: fx_full_db_def o_def)
qed

text \<open>
  C6. The gap test \<open>next > current + 1\<close> also holds between a row \<open>(h, 2^31 - 1)\<close> and its
  successor \<open>(h + 1, 0)\<close>, whose keys are \<open>2^31 + 1\<close> apart, so the successor is offered
  as a gap although it is used. When every smaller fragment is used as well it is the one
  returned: on the ledger holding \<open>(0, 0)\<close> to \<open>(0, 2^31 - 1)\<close> and \<open>(1, 0)\<close>,
  \<open>generateNonce\<close> returns the nonce of \<open>(1, 0)\<close>, which is in the ledger.
\<close>

theorem C6_generateNonce_returns_used:
  "generateNonce fx_sponsor ''1'' fx_full_db = Inr (packNonce fx_sponsor_value 1 0)
   \<and> (1, 0) \<in> set (sponsor_rows fx_full_db ''1'' fx_sponsor_bytes)"
proof
  have f: "fault fx_full_db SelectNextNonce = None" by (simp add: fx_full_db_def)
  have "generateNonce fx_sponsor ''1'' fx_full_db
               = Inr (push_bit 96 (int fx_sponsor_value) OR (push_bit 32 1 OR 0))"
    unfolding generateNonce_def fx_getAddress then_do_Inr lower_digits_def address.case
      fx_Buffer Let_def sponsor_rows_fx_full_db next_nonce_fx_full_rows db_query_def f
      fx_bytes_value
    by simp
  also have "push_bit 96 (int fx_sponsor_value) OR (push_bit 32 1 OR 0)
               = packNonce fx_sponsor_value 1 0"
    by (simp add: fx_sponsor_value_def packNonce_def push_bit_eq_mult)
  finally show "generateNonce fx_sponsor ''1'' fx_full_db = Inr (packNonce fx_sponsor_value 1 0)" .
  show "(1, 0) \<in> set (sponsor_rows fx_full_db ''1'' fx_sponsor_bytes)"
    by (simp add: sponsor_rows_fx_full_db set_fx_full_rows)
qed

section \<open>The allocation stage\<close>

lemma sum_amounts_parsed:
  assumes "\<forall>r \<in> set rows. amount_parses r"
  shows "sum_amounts acc (map c_amount rows) = Inr (acc + sum_list (map row_amount rows))"
  using assms
proof (induction rows arbitrary: acc)
  case Nil
  then show ?case by simp
next
  case (Cons r rows)
  from Cons.prems obtain s v where "c_amount r = Some s" "BigInt_of_string s = Inr v"
    by (auto simp: amount_parses_def split: option.splits sum.splits)
  with Cons show ?case by (simp add: row_amount_def)
qed

lemma sum_deltas_parsed:
  assumes "map BigInt_of_string ds = map Inr vs"
  shows "sum_deltas acc ds = Inr (acc + sum_list vs)"
  using assms
proof (induction ds arbitrary: acc vs)
  case Nil
  then show ?case by simp
next
  case (Cons d ds)
  then obtain v vs' where "vs = v # vs'" "BigInt_of_string d = Inr v"
    "map BigInt_of_string ds = map Inr vs'"
    by (cases vs) auto
  with Cons.IH [of vs'] show ?case by simp
qed

lemma allocated_rows_eq:
  "(if length reported = 0
    then filter (allocated_where sp ch lk now thr) rows
    else filter (\<lambda>r. allocated_where sp ch lk now thr r \<and> claim_hash_not_in reported r) rows)
   = filter (\<lambda>r. same_lock sp ch lk r \<and> outstanding now thr reported r) rows"
  by (auto simp: allocated_where_def claim_hash_not_in_def same_lock_def outstanding_def
      intro!: filter_cong split: option.splits)

lemma getAllocatedBalance_eq:
  assumes "getFinalizationThreshold E ch = Inr thr" "fault db SelectAllocated = None"
    and "\<forall>r \<in> set (compacts db).
           same_lock sp ch lk r \<and> outstanding (now_balance E) thr reported r \<longrightarrow> amount_parses r"
  shows "getAllocatedBalance E db sp ch lk reported
           = Inr (locally_allocated db sp ch lk (now_balance E) thr reported)"
proof -
  let ?live = "filter (\<lambda>r. same_lock sp ch lk r \<and> outstanding (now_balance E) thr reported r)
                 (compacts db)"
  have p: "\<forall>r \<in> set ?live. amount_parses r" using assms(3) by simp
  have "getAllocatedBalance E db sp ch lk reported = sum_amounts 0 (map c_amount ?live)"
    using allocated_rows_eq [of reported sp ch lk "now_balance E" thr "compacts db"]
    by (auto simp: getAllocatedBalance_def assms(1,2) db_query_def Let_def)
  then show ?thesis
    by (simp add: sum_amounts_parsed [OF p] locally_allocated_def)
qed

lemma validateAllocation_total: "\<exists>r. validateAllocation E c ch db = Inr r"
  by (simp add: validateAllocation_def split: sum.splits)

lemma validateAllocation_decision:
  assumes details:
      "getCompactDetails E
         \<lparr>q_allocator = ALLOCATOR_ADDRESS E, q_sponsor = sponsor c,
          q_lockId = bigint_toString (compact_id c), q_chainId = ch\<rparr> = Inr resp"
    and lock: "resourceLocks resp = lock # locks" "withdrawalStatus lock = 0"
    and allocator: "supportedChains resp = g # gs" "g \<noteq> []"
      "BigInt_of_string g = Inr (allocatorId (compact_id c))"
    and parsed: "map BigInt_of_string (accountDeltas resp) = map Inr pendingDeltas"
      "BigInt_of_string (balance lock) = Inr snapshotBalance"
      "BigInt_of_string (amount c) = Inr newAmount"
    and compact: "isAddress (sponsor c)" "0 \<le> compact_id c" "compact_id c < 2 ^ 256"
    and threshold: "getFinalizationThreshold E ch = Inr thr"
    and store: "fault db SelectAllocated = None"
      "\<forall>r \<in> set (compacts db).
         same_lock (''0x'' @ toLowerCase (drop 2 (sponsor c))) ch
           (hex_fixed 64 (nat (compact_id c))) r
         \<and> outstanding (now_balance E) thr (claims resp) r \<longrightarrow> amount_parses r"
    and allocated: "locallyAllocated =
         locally_allocated db (''0x'' @ toLowerCase (drop 2 (sponsor c))) ch
           (hex_fixed 64 (nat (compact_id c))) (now_balance E) thr (claims resp)"
  shows "validateAllocation E c ch db =
     Inr (if spec_allocation_accepts snapshotBalance pendingDeltas locallyAllocated newAmount
          then valid
          else invalid (''Insufficient allocatable balance (have ''
                 @ bigint_toString (max 0 (snapshotBalance - sum_list pendingDeltas))
                 @ '', need '' @ bigint_toString (locallyAllocated + newAmount) @ '')''))"
proof -
  have g: "getAddress (sponsor c) = Inr (Address (toLowerCase (drop 2 (sponsor c))))"
    using compact(1) by (simp add: getAddress_def)
  have h: "bigintToHex (compact_id c) = Inr (hex_fixed 64 (nat (compact_id c)))"
    using compact(2,3) by (rule bigintToHex_hex_fixed)
  have a: "getAllocatedBalance E db (''0x'' @ toLowerCase (drop 2 (sponsor c))) ch
             (hex_fixed 64 (nat (compact_id c))) (claims resp) = Inr locallyAllocated"
    unfolding allocated by (rule getAllocatedBalance_eq [OF threshold store])
  have d: "sum_deltas 0 (accountDeltas resp) = Inr (sum_list pendingDeltas)"
    using sum_deltas_parsed [OF parsed(1), of 0] by simp
  have m: "(if snapshotBalance > sum_list pendingDeltas
            then snapshotBalance - sum_list pendingDeltas else 0)
           = max 0 (snapshotBalance - sum_list pendingDeltas)"
    by simp
  have "validateAllocation_body E c ch db =
     Inr (if max 0 (snapshotBalance - sum_list pendingDeltas) < locallyAllocated + newAmount
          then invalid (''Insufficient allocatable balance (have ''
                 @ bigint_toString (max 0 (snapshotBalance - sum_list pendingDeltas))
                 @ '', need '' @ bigint_toString (locallyAllocated + newAmount) @ '')'')
          else valid)"
    unfolding validateAllocation_body_def Let_def details then_do_Inr lock list.case
      allocator parsed d g h lower_digits_def address.case a m
    using lock(2) allocator(2) by simp
  then show ?thesis
    by (auto simp: validateAllocation_def spec_allocation_accepts_def)
qed


section \<open>The allocation stage at the concrete deployment\<close>

lemma fx_BigInt_1: "BigInt_of_string ''1'' = Inr 1"
  by (simp add: BigInt_of_string_def trimString_def isStrWhiteSpaceChar_def parse_digits_def
      charCodeToBase16_def Let_def)

lemma fx_BigInt_balance: "BigInt_of_string ''10000000000000000000'' = Inr 10000000000000000000"
  by (simp add: BigInt_of_string_def trimString_def isStrWhiteSpaceChar_def parse_digits_def
      charCodeToBase16_def Let_def)

lemma fx_BigInt_amount: "BigInt_of_string ''1000000000000000000'' = Inr 1000000000000000000"
  by (simp add: BigInt_of_string_def trimString_def isStrWhiteSpaceChar_def parse_digits_def
      charCodeToBase16_def Let_def)


lemma fx_allocatorId: "allocatorId fx_id = 1"
  by (simp add: allocatorId_div_mod fx_id_def)

lemma fx_resetPeriodIndex: "resetPeriodIndex fx_id = 7"
proof -
  have "int (resetPeriodIndex fx_id) = 7"
    by (simp add: resetPeriodIndex_div_mod fx_id_def)
  then show ?thesis by simp
qed

lemma fx_id_range: "\<not> fx_id \<le> 0" "0 \<le> fx_id" "fx_id < 2 ^ 256" "fx_id \<noteq> 1"
  "fx_id < 115792089237316195423570985008687907853269984665640564039457584007913129639936"
  by (simp_all add: fx_id_def)




section \<open>Totality of validation\<close>

lemma settled_simps [simp]: "settled valid" "settled (invalid m)"
  by (auto simp: settled_def)


lemma resolves_to_simps [simp]: "resolves_to P (Inr r) = P r" "resolves_to P (Inl e)"
  by (simp_all add: resolves_to_def)

lemma resolves_to_then_do:
  "(\<And>v. resolves_to P (f v)) \<Longrightarrow> resolves_to P (then_do m f)"
  by (cases m) simp_all

lemma resolves_toD: "resolves_to P m \<Longrightarrow> m = Inr r \<Longrightarrow> P r"
  by simp

lemma validateStructure_settled: "\<exists>r. validateStructure c = Inr r \<and> settled r"
  by (simp add: validateStructure_def split: sum.splits)

lemma validateNonce_settled: "\<exists>r. validateNonce n s ch db = Inr r \<and> settled r"
proof (cases "validateNonce_body n s ch db")
  case (Inl e)
  then show ?thesis by (simp add: validateNonce_def)
next
  case (Inr r)
  have "resolves_to settled (validateNonce_body n s ch db)"
    unfolding validateNonce_body_def Let_def
    by (auto intro!: resolves_to_then_do)
  with Inr have "settled r" by simp
  with Inr show ?thesis by (simp add: validateNonce_def)
qed

lemma validateExpiration_settled: "settled (validateExpiration E e)"
  by (simp add: validateExpiration_def Let_def)

lemma validateDomainAndId_settled:
  "\<exists>r. validateDomainAndId E i e ch a = Inr r \<and> settled r"
  by (simp add: validateDomainAndId_def Let_def)

lemma validateAllocation_settled: "\<exists>r. validateAllocation E c ch db = Inr r \<and> settled r"
proof (cases "validateAllocation_body E c ch db")
  case (Inl e)
  then show ?thesis by (simp add: validateAllocation_def)
next
  case (Inr r)
  have "resolves_to settled (validateAllocation_body E c ch db)"
    unfolding validateAllocation_body_def Let_def
    by (auto intro!: resolves_to_then_do split: list.splits)
  with Inr have "settled r" by simp
  with Inr show ?thesis by (simp add: validateAllocation_def)
qed

lemma validateCompact_body_settled:
  assumes "validateCompact_body E c ch db = Inr r"
  shows "settled r"
proof -
  obtain r1 where r1: "validateStructure c = Inr r1" "settled r1"
    using validateStructure_settled by blast
  obtain r2 where r2: "(case nonce c of None \<Rightarrow> Inr valid
                        | Some n \<Rightarrow> validateNonce n (sponsor c) ch db) = Inr r2" "settled r2"
    using validateNonce_settled [of _ "sponsor c" ch db] by (cases "nonce c") auto
  obtain r4 where r4: "validateDomainAndId E (compact_id c) (expires c) ch (ALLOCATOR_ADDRESS E)
                         = Inr r4" "settled r4"
    using validateDomainAndId_settled by blast
  obtain r5 where r5: "validateAllocation E c ch db = Inr r5" "settled r5"
    using validateAllocation_settled by blast
  show ?thesis
    using assms r1(2) r2(2) r4(2) r5(2) validateExpiration_settled [of E "expires c"]
    unfolding validateCompact_body_def r1(1) r2(1) r4(1) r5(1) then_do_Inr Let_def
    by (auto split: if_splits)
qed

text \<open>
  C10. Whatever the compact, the chain id, the database (its contents and the failures of
  its statements), the indexer, the chain configuration and the clock: \<open>validateCompact\<close>
  resolves, and to a result that is valid or carries an error string.
\<close>

theorem C10_validateCompact_total:
  "\<exists>r. validateCompact E c ch db = Inr r \<and> (r = valid \<or> (\<exists>msg. r = invalid msg))"
proof (cases "validateCompact_body E c ch db")
  case (Inl e)
  then show ?thesis by (auto simp: validateCompact_def)
next
  case (Inr r)
  then have "settled r" by (rule validateCompact_body_settled)
  with Inr show ?thesis by (simp add: validateCompact_def settled_def)
qed

section \<open>Validation at the concrete deployment\<close>

lemma fx_chainId: "\<not> chainId_malformed fx_env ''1''"
  by (simp add: chainId_malformed_def parseInt_def isStrWhiteSpaceChar_def charCodeToBase16_def
      parse_digits_def Number_of_bigint_def bit_length.simps Number_toString_def
      bigint_toString_def decimal.simps hex_char_def Let_def)

lemma fx_validateStructure:
  "all_digits a \<Longrightarrow> validateStructure (fx_compact n a) = Inr valid"
  by (simp add: validateStructure_def fx_compact_def fx_getAddress fx_id_range)

lemma fx_validateExpiration: "validateExpiration fx_env 1700003600 = valid"
  by (simp add: validateExpiration_def fx_env_def)

lemma fx_validateDomainAndId: "validateDomainAndId fx_env fx_id 1700003600 ''1'' x = Inr valid"
  using fx_chainId
  by (simp add: validateDomainAndId_def fx_id_range fx_resetPeriodIndex resetPeriods_def)
    (simp add: fx_env_def)

lemma fx_validateNonce:
  assumes "0 \<le> v" "v < 2 ^ 256" "nat v div 2 ^ 96 = fx_sponsor_value"
    and "fault db SelectNonceCount = None"
    and "range_fault db (Number_of_bigint ((v mod 2 ^ 96) div 2 ^ 32))
           (Number_of_bigint (v mod 2 ^ 32)) = None"
    and "nonce_count db ''1'' fx_sponsor_bytes (Number_of_bigint ((v mod 2 ^ 96) div 2 ^ 32))
           (Number_of_bigint (v mod 2 ^ 32)) = 0"
  shows "validateNonce v fx_sponsor ''1'' db = Inr valid"
  unfolding validateNonce_def
    validateNonce_body_eq [OF assms(1,2) fx_isAddress fx_addressToBytes] assms(3) fx_hex fx_lower
  using assms(4,5,6) by simp

lemma fx_validateAllocation:
  assumes "BigInt_of_string a = Inr av" "av \<le> 10000000000000000000"
    and "fault db SelectAllocated = None" "\<forall>r \<in> set (compacts db). c_sponsor r = None"
  shows "validateAllocation fx_env (fx_compact n a) ''1'' db = Inr valid"
proof -
  have z: "locally_allocated db sp ''1'' lk now thr reported = 0" for sp lk now thr reported
    using assms(4) by (simp add: locally_allocated_def same_lock_def filter_False)
  have "validateAllocation fx_env (fx_compact n a) ''1'' db =
     Inr (if spec_allocation_accepts 10000000000000000000 [] 0 av
          then valid
          else invalid (''Insufficient allocatable balance (have ''
                 @ bigint_toString (max 0 (10000000000000000000 - sum_list []))
                 @ '', need '' @ bigint_toString (0 + av) @ '')''))"
    by (rule validateAllocation_decision [where resp = fx_details and thr = 25
          and lock = "\<lparr>balance = ''10000000000000000000'', withdrawalStatus = 0\<rparr>"
          and locks = "[]" and g = "''1''" and gs = "[]"])
      (use assms in \<open>simp_all add: fx_env_def fx_details_def fx_compact_def fx_BigInt_1
        fx_BigInt_balance fx_isAddress z fx_id_range fx_allocatorId same_lock_def\<close>)
  then show ?thesis using assms(2) by (simp add: spec_allocation_accepts_def)
qed

lemma fx_validateCompact:
  assumes "all_digits a" "BigInt_of_string a = Inr av" "av \<le> 10000000000000000000"
    and "fault db SelectAllocated = None" "\<forall>r \<in> set (compacts db). c_sponsor r = None"
    and "case n of None \<Rightarrow> True | Some v \<Rightarrow> validateNonce v fx_sponsor ''1'' db = Inr valid"
  shows "validateCompact fx_env (fx_compact n a) ''1'' db = Inr valid"
proof -
  have e: "expires (fx_compact n a) = 1700003600" "compact_id (fx_compact n a) = fx_id"
    "sponsor (fx_compact n a) = fx_sponsor" "nonce (fx_compact n a) = n"
    by (simp_all add: fx_compact_def)
  have nr: "(case n of None \<Rightarrow> Inr valid | Some v \<Rightarrow> validateNonce v fx_sponsor ''1'' db)
              = Inr valid"
    using assms(6) by (cases n) simp_all
  show ?thesis
    unfolding validateCompact_def validateCompact_body_def e nr
      fx_validateStructure [OF assms(1)] fx_validateExpiration fx_validateDomainAndId
      fx_validateAllocation [OF assms(2-5)] then_do_Inr Let_def
    using fx_chainId by simp
qed

section \<open>Signing and submission\<close>

lemma hex_fixed_2: "hex_fixed 2 x = [hex_char ((x div 16) mod 16), hex_char (x mod 16)]"
  by (simp add: hex_fixed_numeral)

lemma bytes_of_pairs_digits:
  assumes "a < 16" "b < 16" "bytes_of_pairs rest = Inr bs"
  shows "bytes_of_pairs ([hex_char a, hex_char b] @ rest) = Inr (of_nat (a * 16 + b) # bs)"
  using assms by (simp add: charCodeToBase16_hex_char)

lemma bytes_of_pairs_hex_fixed:
  "bytes_of_pairs (hex_fixed (2 * m) k) = Inr (bytes_fixed m k)"
proof (induction m)
  case 0
  then show ?case by simp
next
  case (Suc m)
  let ?x = "k div 256 ^ m"
  have "2 * Suc m = 2 + 2 * m" by simp
  then have "hex_fixed (2 * Suc m) k = hex_fixed 2 (k div 16 ^ (2 * m)) @ hex_fixed (2 * m) k"
    by (simp only: hex_fixed_add)
  also have "(16::nat) ^ (2 * m) = 256 ^ m"
    by (simp add: power_mult)
  finally have h: "hex_fixed (2 * Suc m) k
      = [hex_char ((?x div 16) mod 16), hex_char (?x mod 16)] @ hex_fixed (2 * m) k"
    by (simp only: hex_fixed_2)
  have "?x mod (16 * 16) = 16 * (?x div 16 mod 16) + ?x mod 16"
    by (rule mod_mult2_eq)
  then have x: "(?x div 16) mod 16 * 16 + ?x mod 16 = ?x mod 256"
    by simp
  have "bytes_of_pairs (hex_fixed (2 * Suc m) k)
          = Inr (of_nat ((?x div 16) mod 16 * 16 + ?x mod 16) # bytes_fixed m k)"
    unfolding h by (rule bytes_of_pairs_digits) (simp_all add: Suc.IH)
  then show ?case by (simp only: x bytes_fixed.simps)
qed

lemma hexToBytes_hex_fixed:
  "hexToBytes (''0x'' @ hex_fixed 64 k) = Inr (bytes_fixed 32 k)"
  using bytes_of_pairs_hex_fixed [of 32 k] by (simp add: hexToBytes_def del: hex_fixed.simps)

lemma length_bytes_fixed [simp]: "length (bytes_fixed m k) = m"
  by (induction m) simp_all

lemma decimal_32: "string_bytes (decimal 32) = [51, 50]"
  by (simp add: decimal.simps string_bytes_def hex_char_def)

lemma signCompact_prefixed:
  assumes "hexToBytes hash = Inr digest"
  shows "signCompact E hash chainId =
           sign E (keccak256 E (presignMessagePrefix @ string_bytes (decimal (length digest))
                                @ digest))"
  by (simp add: signCompact_def signMessage_def hashMessage_def toPrefixedMessage_def assms)

lemma storeCompact_InrD:
  assumes "storeCompact E db sub h s = Inr db'"
  shows "nonces db' = nonces db" "fault db' = fault db"
    "compacts db' = compacts db @
       [\<lparr>c_chain_id = s_chainId sub, c_compact = Some (s_compact sub), c_hash = Some h,
         c_signature = Some s, c_created_at = Some (sql_NOW E),
         c_sponsor = None, c_compact_id = None, c_expires = None,
         c_amount = None, c_claim_hash = None\<rparr>]"
  using assms
  by (auto simp: storeCompact_def then_do_eq_Inr db_query_eq_Inr split: if_splits)

lemma validateCompact_settled: "\<exists>r. validateCompact E c ch db = Inr r \<and> settled r"
proof (cases "validateCompact_body E c ch db")
  case (Inl e)
  then show ?thesis by (auto simp: validateCompact_def)
next
  case (Inr r)
  then have "settled r" by (rule validateCompact_body_settled)
  with Inr show ?thesis by (simp add: validateCompact_def)
qed

lemma submitCompact_InrD:
  assumes "submitCompact E db sub a = Inr ((h, s), db')"
  shows "validateCompact E (s_compact sub) (s_chainId sub) db = Inr valid"
    and "\<exists>cid. BigInt_of_string (s_chainId sub) = Inr cid
           \<and> generateClaimHash E (s_compact sub) cid = Inr h
           \<and> signCompact E h cid = Inr s"
    and "storeCompact E db sub h s = Inr db'"
proof -
  obtain r where r: "validateCompact E (s_compact sub) (s_chainId sub) db = Inr r" "settled r"
    using validateCompact_settled by blast
  from assms r(1) have v: "isValid r"
    by (auto simp: submitCompact_def then_do_eq_Inr split: if_splits)
  with r(2) have "r = valid" by (auto simp: settled_def)
  with r(1) show "validateCompact E (s_compact sub) (s_chainId sub) db = Inr valid" by simp
  from assms r(1) v
  show "\<exists>cid. BigInt_of_string (s_chainId sub) = Inr cid
           \<and> generateClaimHash E (s_compact sub) cid = Inr h
           \<and> signCompact E h cid = Inr s"
    and "storeCompact E db sub h s = Inr db'"
    by (auto simp: submitCompact_def then_do_eq_Inr split: if_splits)
qed

lemma submitCompact_leaves_nonces:
  assumes "submitCompact E db sub a = Inr (res, db')"
  shows "nonces db' = nonces db"
proof -
  obtain h s where "res = (h, s)" by (cases res)
  with assms have "storeCompact E db sub h s = Inr db'" by (simp add: submitCompact_InrD(3))
  then show ?thesis by (rule storeCompact_InrD(1))
qed

section \<open>Submission at the concrete deployment\<close>

lemma fx_generateClaimHash:
  assumes "BigInt_of_string a = Inr av"
  shows "generateClaimHash fx_env (fx_compact (Some v) a) 1 = Inr (fx_hash v av)"
  by (simp add: generateClaimHash_def claim_typed_data_def fx_compact_def fx_getAddress assms
      falsy_def fx_env_def fx_hashTypedData_def fx_hash_def fx_digest_def del: hex_fixed.simps)


lemma fx_hexToBytes_hash: "hexToBytes (fx_hash v av) = Inr (bytes_fixed 32 (fx_digest v av))"
  by (simp only: fx_hash_def hexToBytes_hex_fixed)

lemma fx_signCompact: "signCompact fx_env (fx_hash v av) 1 = Inr (fx_signature v av)"
  unfolding signCompact_prefixed [OF fx_hexToBytes_hash] length_bytes_fixed decimal_32
  by (simp add: fx_env_def fx_signature_def Let_def del: bytes_fixed.simps)

lemma fx_submitCompact:
  assumes a: "all_digits a" "BigInt_of_string a = Inr av" "av \<le> 10000000000000000000"
    and db: "fault db = (\<lambda>_. None)" "\<forall>r \<in> set (compacts db). c_sponsor r = None"
      "\<forall>r \<in> set (compacts db). c_hash r \<noteq> Some (fx_hash v av)"
    and v: "validateNonce v fx_sponsor ''1'' db = Inr valid"
  shows "submitCompact fx_env db (fx_submission (Some v) a) fx_sponsor
           = Inr ((fx_hash v av, fx_signature v av), fx_stored db (Some v) a v av)"
proof -
  have f: "fault db SelectAllocated = None" "fault db InsertCompact = None"
    by (simp_all add: db(1))
  have vc: "validateCompact fx_env (fx_compact (Some v) a) ''1'' db = Inr valid"
    using fx_validateCompact [OF a f(1) db(2), of "Some v"] v by simp
  have st: "storeCompact fx_env db (fx_submission (Some v) a) (fx_hash v av) (fx_signature v av)
              = Inr (fx_stored db (Some v) a v av)"
    using db(3) by (auto simp: storeCompact_def db_query_def f(2) fx_submission_def
        fx_stored_def fx_env_def)
  have s: "sponsor (fx_compact (Some v) a) = fx_sponsor" by (simp add: fx_compact_def)
  show ?thesis
    unfolding submitCompact_def
    by (simp add: fx_submission_def s fx_getAddress vc fx_BigInt_1
        fx_generateClaimHash [OF a(2)] fx_signCompact st [unfolded fx_submission_def])
qed

section \<open>The nonce ledger after an admission\<close>

lemma fx_validateNonce_pack:
  assumes "0 \<le> h" "h < 2 ^ 64" "0 \<le> l" "l < 2 ^ 32" "nonces db = []" "fault db = (\<lambda>_. None)"
    and "range_fault db (Number_of_bigint h) (Number_of_bigint l) = None"
  shows "validateNonce (packNonce fx_sponsor_value h l) fx_sponsor ''1'' db = Inr valid"
proof -
  note f = packNonce_fields [OF assms(1-4), of fx_sponsor_value]
  have "int fx_sponsor_value * 2 ^ 96 \<le> (2 ^ 160 - 1) * 2 ^ 96"
    using fx_sponsor_value_less by simp
  moreover have "h * 2 ^ 32 \<le> (2 ^ 64 - 1) * 2 ^ 32"
    using assms(2) by simp
  ultimately have lt: "packNonce fx_sponsor_value h l < 2 ^ 256"
    using assms(4) by (simp add: packNonce_def)
  show ?thesis
  proof (rule fx_validateNonce [OF f(4) lt f(1)])
    show "fault db SelectNonceCount = None" by (simp add: assms(6))
    show "range_fault db
            (Number_of_bigint ((packNonce fx_sponsor_value h l mod 2 ^ 96) div 2 ^ 32))
            (Number_of_bigint (packNonce fx_sponsor_value h l mod 2 ^ 32)) = None"
      by (simp only: f assms(7))
    show "nonce_count db ''1'' fx_sponsor_bytes
            (Number_of_bigint ((packNonce fx_sponsor_value h l mod 2 ^ 96) div 2 ^ 32))
            (Number_of_bigint (packNonce fx_sponsor_value h l mod 2 ^ 32)) = 0"
      by (simp add: assms(5) nonce_count_def)
  qed
qed



lemma fx_all_digits:
  "all_digits ''1000000000000000000''" "all_digits ''2000000000000000000''"
  by (simp_all add: all_digits_def)

lemma fx_db_facts:
  "nonces fx_db = []" "compacts fx_db = []" "fault fx_db = (\<lambda>_. None)"
  "range_fault fx_db = (\<lambda>_ _. None)"
  by (simp_all add: fx_db_def)





section \<open>A submission without a nonce\<close>


lemma claim_typed_data_nonce:
  assumes "claim_typed_data c ch = Inr td"
  shows "map_of (td_message td) ''nonce'' = Some (V_uint256 (nonce c))"
  using assms
  by (auto simp: claim_typed_data_def then_do_eq_Inr Let_def split: if_splits)

lemma submitCompact_hashes_given_nonce:
  assumes "submitCompact E db sub a = Inr ((h, s), db')"
  shows "\<exists>td. hashTypedData E td = Inr h
           \<and> map_of (td_message td) ''nonce'' = Some (V_uint256 (nonce (s_compact sub)))"
proof -
  from submitCompact_InrD(2) [OF assms] obtain cid td
    where "claim_typed_data (s_compact sub) cid = Inr td" "hashTypedData E td = Inr h"
    by (auto simp: generateClaimHash_def then_do_eq_Inr)
  then show ?thesis using claim_typed_data_nonce by blast
qed


section \<open>What is signed\<close>











section \<open>The schema of the claim hash\<close>

lemma claim_typed_data_schema:
  assumes "claim_typed_data c ch = Inr td"
  shows "td_types td = (if witness_pair_nonempty c then COMPACT_WITH_WITNESS_TYPES
                        else COMPACT_TYPES)"
    and "map fst (td_message td) = map fst (td_types td)"
proof -
  have w: "witness_pair_nonempty c \<longleftrightarrow> \<not> (falsy (witnessTypeString c) \<or> falsy (witnessHash c))"
    by (auto simp: witness_pair_nonempty_def falsy_def split: option.splits)
  from assms show "td_types td = (if witness_pair_nonempty c then COMPACT_WITH_WITNESS_TYPES
                        else COMPACT_TYPES)"
    unfolding w
    by (auto simp: claim_typed_data_def then_do_eq_Inr Let_def split: if_splits)
  from assms show "map fst (td_message td) = map fst (td_types td)"
    by (auto simp: claim_typed_data_def then_do_eq_Inr Let_def COMPACT_TYPES_def
        COMPACT_WITH_WITNESS_TYPES_def split: if_splits)
qed

text \<open>
  C5 (as amended). The digest is computed with the schema that has the witness fields
  exactly when both witness fields are non-empty strings, and with the witness-free
  schema otherwise; the message has exactly the fields of the schema chosen.
\<close>

theorem C5_schema_by_nonempty_witness:
  assumes "generateClaimHash E c ch = Inr digest"
  shows "\<exists>td. claim_typed_data c ch = Inr td \<and> hashTypedData E td = Inr digest
           \<and> td_types td = (if witness_pair_nonempty c then COMPACT_WITH_WITNESS_TYPES
                             else COMPACT_TYPES)
           \<and> map fst (td_message td) = map fst (td_types td)"
proof -
  from assms obtain td where "claim_typed_data c ch = Inr td" "hashTypedData E td = Inr digest"
    by (auto simp: generateClaimHash_def then_do_eq_Inr)
  then show ?thesis using claim_typed_data_schema by blast
qed

lemma fx_witness_hash:
  "generateClaimHash fx_env fx_witness_compact 1 = Inr (fx_hash fx_nonce0 1000000000000000000)"
  by (simp add: generateClaimHash_def claim_typed_data_def fx_witness_compact_def fx_compact_def
      fx_getAddress fx_BigInt_amount falsy_def fx_env_def fx_hashTypedData_def fx_hash_def
      fx_digest_def fx_nonce0_def del: hex_fixed.simps)

text \<open>C5 (as amended) at a compact with a witness.\<close>

theorem C5_witness:
  "\<exists>td. claim_typed_data fx_witness_compact 1 = Inr td
         \<and> hashTypedData fx_env td = Inr (fx_hash fx_nonce0 1000000000000000000)
         \<and> td_types td = COMPACT_WITH_WITNESS_TYPES
         \<and> map fst (td_message td) = map fst (td_types td)"
proof -
  have "witness_pair_nonempty fx_witness_compact"
    by (simp add: witness_pair_nonempty_def fx_witness_compact_def)
  with C5_schema_by_nonempty_witness [OF fx_witness_hash] show ?thesis by simp
qed

text \<open>
  C5 (as stated) fails: a compact whose witness type string is the empty string and whose
  witness hash is present satisfies W1 (\<open>validateStructure\<close> accepts it) and has the
  witness pair, but is hashed with the witness-free schema.
\<close>

theorem C5_counterexample:
  "validateStructure fx_empty_witness_compact = Inr valid
   \<and> map_sum id td_types (claim_typed_data fx_empty_witness_compact 1) = Inr COMPACT_TYPES
   \<and> spec_schema fx_empty_witness_compact = COMPACT_WITH_WITNESS_TYPES
   \<and> COMPACT_TYPES \<noteq> COMPACT_WITH_WITNESS_TYPES"
proof (intro conjI)
  show "validateStructure fx_empty_witness_compact = Inr valid"
    by (simp add: validateStructure_def fx_empty_witness_compact_def fx_compact_def
        fx_getAddress fx_id_range all_digits_def)
  show "map_sum id td_types (claim_typed_data fx_empty_witness_compact 1) = Inr COMPACT_TYPES"
    by (simp add: claim_typed_data_def fx_empty_witness_compact_def fx_compact_def
        fx_getAddress fx_BigInt_amount falsy_def)
  show "spec_schema fx_empty_witness_compact = COMPACT_WITH_WITNESS_TYPES"
    by (simp add: spec_schema_def fx_empty_witness_compact_def)
  show "COMPACT_TYPES \<noteq> COMPACT_WITH_WITNESS_TYPES"
    by (simp add: COMPACT_TYPES_def COMPACT_WITH_WITNESS_TYPES_def)
qed

section \<open>The nonce of an admitted compact\<close>








text \<open>
  Over the database with the columns of the specification, the nonce with fragment
  \<open>(0, 2^31)\<close> is rejected: the query throws, and \<open>validateNonce\<close> reports the error.
\<close>

lemma typed_column_rejects_bit31:
  "validateNonce fx_nonce_bit31 fx_sponsor ''1'' fx_db_typed
     = Inr (invalid ''Nonce validation error: value out of range for type integer'')"
proof -
  have r: "(0::int) \<le> 0" "(0::int) < 2 ^ 64" "(0::int) \<le> 2 ^ 31" "(2::int) ^ 31 < 2 ^ 32"
    by simp_all
  note f = packNonce_fields [OF r, of fx_sponsor_value]
  have "int fx_sponsor_value * 2 ^ 96 \<le> (2 ^ 160 - 1) * 2 ^ 96"
    using fx_sponsor_value_less by simp
  then have lt: "packNonce fx_sponsor_value 0 (2 ^ 31) < 2 ^ 256"
    by (simp add: packNonce_def)
  have n: "Number_of_bigint 0 = 0" "Number_of_bigint (2 ^ 31) = 2 ^ 31"
    by (simp_all add: Number_of_bigint_exact)
  have q: "range_fault fx_db_typed 0 (2 ^ 31)
             = Some (Error ''value out of range for type integer'')"
    by (simp add: fx_db_typed_def)
  have z: "fault fx_db_typed SelectNonceCount = None"
    by (simp add: fx_db_typed_def fx_db_facts)
  show ?thesis
    unfolding validateNonce_def fx_nonce_bit31_def
      validateNonce_body_eq [OF f(4) lt fx_isAddress fx_addressToBytes] f fx_hex fx_lower n q z
    by (simp add: message_or_String_def)
qed

lemma fx_run_bit31:
  "submitCompact fx_env fx_db (fx_submission (Some fx_nonce_bit31) ''1000000000000000000'')
     fx_sponsor
     = Inr ((fx_hash fx_nonce_bit31 1000000000000000000,
             fx_signature fx_nonce_bit31 1000000000000000000),
            fx_stored fx_db (Some fx_nonce_bit31) ''1000000000000000000'' fx_nonce_bit31
              1000000000000000000)"
  by (rule fx_submitCompact [OF fx_all_digits(1) fx_BigInt_amount])
    (simp_all add: fx_db_facts fx_nonce_bit31_def fx_validateNonce_pack)

text \<open>
  The bound is the column's, not the code's: over a database that takes every 32-bit value
  the compact whose nonce has fragment \<open>(0, 2^31)\<close> passes nonce validation and is
  admitted.
\<close>

lemma unbounded_column_admits_bit31:
  "validateNonce fx_nonce_bit31 fx_sponsor ''1'' fx_db = Inr valid
   \<and> submitCompact fx_env fx_db (fx_submission (Some fx_nonce_bit31) ''1000000000000000000'')
        fx_sponsor
     = Inr ((fx_hash fx_nonce_bit31 1000000000000000000,
             fx_signature fx_nonce_bit31 1000000000000000000),
            fx_stored fx_db (Some fx_nonce_bit31) ''1000000000000000000'' fx_nonce_bit31
              1000000000000000000)
   \<and> bit fx_nonce_bit31 31
   \<and> fx_nonce_bit31 mod 2 ^ 32 = 2 ^ 31"
proof (intro conjI)
  show "validateNonce fx_nonce_bit31 fx_sponsor ''1'' fx_db = Inr valid"
    unfolding fx_nonce_bit31_def
    by (rule fx_validateNonce_pack) (simp_all add: fx_db_facts)
  have r: "(0::int) \<le> 0" "(0::int) < 2 ^ 64" "(0::int) \<le> 2 ^ 31" "(2::int) ^ 31 < 2 ^ 32"
    by simp_all
  show m: "fx_nonce_bit31 mod 2 ^ 32 = 2 ^ 31"
    unfolding fx_nonce_bit31_def by (rule packNonce_fields(3) [OF r])
  have "bit fx_nonce_bit31 31 = bit (take_bit 32 fx_nonce_bit31) 31"
    by (simp add: bit_take_bit_iff)
  also have "take_bit 32 fx_nonce_bit31 = 2 ^ 31"
    using m by (simp only: take_bit_eq_mod)
  finally show "bit fx_nonce_bit31 31" by (simp add: bit_exp_iff)
qed (rule fx_run_bit31)


end
